theory Spec2Isabelle
  imports Main
begin

section \<open>Data model of \<^verbatim>\<open>scapy/supersocket.py\<close>\<close>

text \<open>
  Byte strings are Python 2 \<^verbatim>\<open>str\<close> values: lists of 8-bit characters.
\<close>

type_synonym bytes = string

text \<open>
  The exceptions that can cross the methods of the module. \<open>SocketError\<close> is
  \<^verbatim>\<open>socket.error((errno, msg))\<close>; \<open>ValueError\<close> is what \<^verbatim>\<open>recv\<close> raises on a
  negative size; \<open>OtherError\<close> stands for every other exception a dissector may raise.
  The strings of \<open>AttributeError\<close> and \<open>TypeError\<close> are their messages.
\<close>

datatype exn =
    KeyboardInterrupt
  | SocketError nat string
  | ValueError
  | AttributeError string
  | TypeError string
  | OtherError string

subsection \<open>Packets\<close>

text \<open>
  Modelled from the spec: the packet class (\<^verbatim>\<open>scapy.packet.Packet\<close>) is not part of the
  module. A frame is an ordered chain of layers ending in the terminal layer
  \<^verbatim>\<open>NoPayload\<close> (the empty chain); each layer has a class, identified by its name, the
  bytes it claims (\<open>load\<close>), and possibly a destination field. The attributes \<open>time\<close>
  and \<open>sent_time\<close> are the stamps this module attaches to the outermost object.
\<close>

record layer =
  lclass :: string
  load :: bytes
  dst :: "string option"

record packet =
  layers :: "layer list"
  time :: "nat option"
  sent_time :: "nat option"

text \<open>
  Modelled from the spec: \<^verbatim>\<open>str(pkt)\<close> and \<^verbatim>\<open>len(pkt)\<close> of the absent packet class are
  the bytes of all layers, in order.
\<close>

definition wire :: "layer list \<Rightarrow> bytes" where
  "wire ls = concat (map load ls)"

definition str_pkt :: "packet \<Rightarrow> bytes" where
  "str_pkt p = wire (layers p)"

text \<open>
  Modelled from the spec: \<^verbatim>\<open>pkt.payload\<close> of the absent packet class is the object below
  the outermost layer (the inner payload), a distinct object that carries no stamp of
  this module yet. The payload of the last layer is \<^verbatim>\<open>NoPayload\<close>.
\<close>

definition payload :: "packet \<Rightarrow> packet" where
  "payload p = \<lparr>layers = tl (layers p), time = None, sent_time = None\<rparr>"

text \<open>
  Modelled from the spec: the truth value of a result of the absent packet class
  (\<^verbatim>\<open>if not pkt\<close>); a frame is a result, only \<^verbatim>\<open>None\<close> and \<^verbatim>\<open>NoPayload\<close> are none.
\<close>

definition truthy :: "packet option \<Rightarrow> bool" where
  "truthy r = (case r of None \<Rightarrow> False | Some p \<Rightarrow> layers p \<noteq> [])"

text \<open>
  Modelled from the spec: \<^verbatim>\<open>pkt.getlayer(cls)\<close> of the absent packet class is the first
  layer of class \<open>cls\<close> (the padding sub-layer, for the padding class), or \<^verbatim>\<open>None\<close>.
  The layer is returned as the pair of the layers over it and the layers that start at
  it, so that \<^verbatim>\<open>pad.underlayer is None\<close> is the first component being empty.
\<close>

fun getlayer :: "string \<Rightarrow> layer list \<Rightarrow> (layer list \<times> layer list) option" where
  "getlayer c [] = None"
| "getlayer c (l # ls) =
     (if lclass l = c then Some ([], l # ls)
      else (case getlayer c ls of
              None \<Rightarrow> None
            | Some (und, pads) \<Rightarrow> Some (l # und, pads)))"

text \<open>
  The loop \<^verbatim>\<open>while pad is not None and not isinstance(pad, NoPayload):
  x -= len(pad.load); pad = pad.payload\<close>.
\<close>

fun pad_walk :: "layer list \<Rightarrow> int \<Rightarrow> int" where
  "pad_walk [] x = x"
| "pad_walk (pad # rest) x = pad_walk rest (x - int (length (load pad)))"

text \<open>
  Lines 134--140 of \<^verbatim>\<open>StreamSocket.recv\<close> and 169--175 of \<^verbatim>\<open>SSLStreamSocket.recv\<close>,
  which are the same code: find the padding layer, cut it off its underlayer when it has
  one, and subtract from \<open>x\<close> the length of every layer from the padding downwards.
\<close>

definition strip_padding :: "string \<Rightarrow> packet \<Rightarrow> int \<Rightarrow> packet \<times> int" where
  "strip_padding padcls pkt x =
     (case getlayer padcls (layers pkt) of
        None \<Rightarrow> (pkt, x)
      | Some (und, pads) \<Rightarrow>
          ((if und \<noteq> [] then pkt\<lparr>layers := und\<rparr> else pkt), pad_walk pads x))"

text \<open>The total byte length \<open>P\<close> of the padding chain of a decoded frame.\<close>

definition padding_len :: "string \<Rightarrow> packet \<Rightarrow> nat" where
  "padding_len padcls pkt =
     (case getlayer padcls (layers pkt) of
        None \<Rightarrow> 0
      | Some (und, pads) \<Rightarrow> length (wire pads))"

subsection \<open>Dissectors, configuration, trace\<close>

text \<open>
  A packet class as this module uses it: a name and the constructor applied to bytes,
  which returns a packet or raises.
\<close>

record pktcls =
  name :: string
  dissect :: "bytes \<Rightarrow> exn + packet"

text \<open>The fields of \<^verbatim>\<open>scapy.config.conf\<close> the module reads.\<close>

record conf =
  l2types :: "int \<rightharpoonup> pktcls"
  l3types :: "int \<rightharpoonup> pktcls"
  default_l2 :: pktcls
  raw_layer :: pktcls
  padding_layer :: string
  debug_dissector :: bool

text \<open>
  What a call leaves behind outside its result: each call of a dissector, each
  \<^verbatim>\<open>warning(...)\<close> (with the four values formatted into the message) and each
  \<^verbatim>\<open>log_runtime.error(msg)\<close>.
\<close>

datatype event =
    Decode string bytes
  | Warning string int int string
  | LogError exn

definition is_warning :: "event \<Rightarrow> bool" where
  "is_warning e = (case e of Warning _ _ _ _ \<Rightarrow> True | _ \<Rightarrow> False)"

subsection \<open>Stream sockets\<close>

text \<open>
  A connected stream socket as the module sees it: the bytes the kernel has received and
  the caller has not read yet, and the segments still to arrive, in order. When nothing
  is left to arrive the peer has closed, and a read returns the empty string.
\<close>

record sock =
  rcvbuf :: bytes
  inflight :: "bytes list"

definition pending :: "sock \<Rightarrow> bytes" where
  "pending s = rcvbuf s @ concat (inflight s)"

text \<open>A blocking read waits until some byte has arrived or the peer has closed.\<close>

definition sock_wait :: "sock \<Rightarrow> sock" where
  "sock_wait s =
     (if rcvbuf s \<noteq> [] then s
      else (case dropWhile (\<lambda>c. c = []) (inflight s) of
              [] \<Rightarrow> s\<lparr>inflight := []\<rparr>
            | c # cs \<Rightarrow> s\<lparr>rcvbuf := c, inflight := cs\<rparr>))"

text \<open>
  \<^verbatim>\<open>sock.recv(n)\<close> and \<^verbatim>\<open>sock.recv(n, socket.MSG_PEEK)\<close>: a negative size raises,
  size zero returns at once, otherwise up to \<open>n\<close> of the received bytes are returned,
  and removed unless the read is a peek.
\<close>

definition sock_recv :: "int \<Rightarrow> bool \<Rightarrow> sock \<Rightarrow> (exn + bytes) \<times> sock" where
  "sock_recv n peek s =
     (if n < 0 then (Inl ValueError, s)
      else if n = 0 then (Inr [], s)
      else (let s' = sock_wait s
            in (Inr (take (nat n) (rcvbuf s')),
                if peek then s' else s'\<lparr>rcvbuf := drop (nat n) (rcvbuf s')\<rparr>)))"

text \<open>Segments that arrive between two calls are appended to the received bytes.\<close>

definition arrive :: "nat \<Rightarrow> sock \<Rightarrow> sock" where
  "arrive k s =
     s\<lparr>rcvbuf := rcvbuf s @ concat (take k (inflight s)), inflight := drop k (inflight s)\<rparr>"

section \<open>\<^verbatim>\<open>SuperSocket.close\<close>\<close>

text \<open>
  The attributes \<^verbatim>\<open>ins\<close> and \<^verbatim>\<open>outs\<close> of a handle. The class defines neither, so an
  attribute exists only once a constructor has assigned it: it is unset, or holds
  \<^verbatim>\<open>None\<close> (as \<^verbatim>\<open>L2ListenTcpdump\<close> sets \<^verbatim>\<open>outs\<close>), or holds a reference to a channel
  object. The attribute \<^verbatim>\<open>closed\<close> is a class attribute and always exists.
\<close>

datatype attr = Unset | PyNone | Chan nat

record handle =
  h_ins :: attr
  h_outs :: attr
  closed :: bool

text \<open>
  Two attributes may hold the same object, so the channels live in a store indexed by
  reference. A channel is its file descriptor, which is \<open>-1\<close> once the channel is
  closed: the value the guard of \<^verbatim>\<open>close\<close> tests for. The store also records each call
  of a channel's own \<^verbatim>\<open>close()\<close>, in order.
\<close>

record chans =
  fd :: "nat \<Rightarrow> int"
  closes :: "nat list"

definition fileno :: "nat \<Rightarrow> chans \<Rightarrow> int" where
  "fileno c w = fd w c"

definition chan_close :: "nat \<Rightarrow> chans \<Rightarrow> chans" where
  "chan_close c w = w\<lparr>fd := (fd w)(c := - 1), closes := closes w @ [c]\<rparr>"

text \<open>
  Reading an attribute: \<^verbatim>\<open>self.ins\<close> raises \<^verbatim>\<open>AttributeError\<close> when the attribute was
  never assigned.
\<close>

definition getattr :: "string \<Rightarrow> attr \<Rightarrow> exn + nat option" where
  "getattr nm a =
     (case a of
        Unset \<Rightarrow> Inl (AttributeError nm)
      | PyNone \<Rightarrow> Inr None
      | Chan c \<Rightarrow> Inr (Some c))"

text \<open>
  \<^verbatim>\<open>if ch and ch.fileno() != -1: ch.close()\<close>; a channel object is true, \<^verbatim>\<open>None\<close> is
  false.
\<close>

definition close_if_live :: "nat option \<Rightarrow> chans \<Rightarrow> chans" where
  "close_if_live ch w =
     (case ch of
        None \<Rightarrow> w
      | Some c \<Rightarrow> if fileno c w \<noteq> - 1 then chan_close c w else w)"

text \<open>
  \<^verbatim>\<open>SuperSocket.close\<close>. Line 47 sets \<^verbatim>\<open>closed\<close> before line 48 reads \<^verbatim>\<open>self.ins\<close> and
  then \<^verbatim>\<open>self.outs\<close> for the comparison; nothing in the method catches an exception,
  so an unset attribute ends the call there, with \<^verbatim>\<open>closed\<close> already set.
\<close>

definition SuperSocket_close :: "handle \<Rightarrow> chans \<Rightarrow> (exn + unit) \<times> handle \<times> chans" where
  "SuperSocket_close h w =
     (if closed h then (Inr (), h, w)
      else (let h1 = h\<lparr>closed := True\<rparr>
            in case getattr ''ins'' (h_ins h1) of
                 Inl e \<Rightarrow> (Inl e, h1, w)
               | Inr i \<Rightarrow>
                   (case getattr ''outs'' (h_outs h1) of
                      Inl e \<Rightarrow> (Inl e, h1, w)
                    | Inr ou \<Rightarrow>
                        (let w1 = (if i \<noteq> ou then close_if_live ou w else w);
                             w2 = close_if_live i w1
                         in (Inr (), h1, w2)))))"

text \<open>\<open>n\<close> invocations of \<^verbatim>\<open>close()\<close> on one handle, one after the other.\<close>

fun close_n :: "nat \<Rightarrow> handle \<Rightarrow> chans \<Rightarrow> (exn + unit) list \<times> handle \<times> chans" where
  "close_n 0 h w = ([], h, w)"
| "close_n (Suc n) h w =
     (case SuperSocket_close h w of
        (r, h1, w1) \<Rightarrow> (case close_n n h1 w1 of (rs, h2, w2) \<Rightarrow> (r # rs, h2, w2)))"

text \<open>
  The channels an invocation on an open handle is to close, in the words of the
  specification: first the output channel, only if it differs from the input channel
  and is still live, then the input channel if still live.
\<close>

definition closed_by :: "handle \<Rightarrow> chans \<Rightarrow> nat list" where
  "closed_by h w =
     (case h_outs h of
        Chan c \<Rightarrow> if h_ins h \<noteq> h_outs h \<and> fd w c \<noteq> - 1 then [c] else []
      | _ \<Rightarrow> []) @
     (case h_ins h of
        Chan c \<Rightarrow> if fd w c \<noteq> - 1 then [c] else []
      | _ \<Rightarrow> [])"

text \<open>
  \<^verbatim>\<open>L3RawSocket.__init__\<close>, lines 69--74, as far as the attributes go. The four
  arguments are what the environment answers to the creation of the output socket
  (line 70), to \<^verbatim>\<open>setsockopt\<close> (line 71), to the creation of the packet socket (line 72,
  which needs a privilege) and to \<^verbatim>\<open>bind\<close> (line 74): a channel reference, or the
  exception raised. A constructor that raises leaves the attributes assigned so far.
\<close>

definition new_handle :: handle where
  "new_handle = \<lparr>h_ins = Unset, h_outs = Unset, closed = False\<rparr>"

definition L3RawSocket_init ::
  "exn + nat \<Rightarrow> exn option \<Rightarrow> exn + nat \<Rightarrow> exn option \<Rightarrow> (exn + unit) \<times> handle" where
  "L3RawSocket_init o_sock o_opt i_sock i_bind =
     (case o_sock of
        Inl e \<Rightarrow> (Inl e, new_handle)
      | Inr co \<Rightarrow>
          (let h1 = new_handle\<lparr>h_outs := Chan co\<rparr>
           in case o_opt of
                Some e \<Rightarrow> (Inl e, h1)
              | None \<Rightarrow>
                  (case i_sock of
                     Inl e \<Rightarrow> (Inl e, h1)
                   | Inr ci \<Rightarrow>
                       (let h2 = h1\<lparr>h_ins := Chan ci\<rparr>
                        in case i_bind of
                             Some e \<Rightarrow> (Inl e, h2)
                           | None \<Rightarrow> (Inr (), h2)))))"

section \<open>\<^verbatim>\<open>L3RawSocket\<close>\<close>

text \<open>
  The address \<^verbatim>\<open>sa_ll\<close> that \<^verbatim>\<open>recvfrom\<close> returns with each frame of a packet socket:
  \<^verbatim>\<open>sa_ll[0]\<close> to \<^verbatim>\<open>sa_ll[3]\<close>.
\<close>

record sockaddr_ll =
  ifname :: string
  proto :: int
  pkttype :: int
  hatype :: int

definition PACKET_OUTGOING :: int where
  "PACKET_OUTGOING = 4"

text \<open>
  The state of the object beyond its input channel: the trace, and the datagrams written
  to \<^verbatim>\<open>outs\<close> with their addresses.
\<close>

record supersocket =
  log :: "event list"

record l3_raw_socket = supersocket +
  sent :: "(bytes \<times> string \<times> nat) list"

text \<open>A call \<^verbatim>\<open>cls(b)\<close> of a packet class, recorded in the trace.\<close>

definition decode :: "pktcls \<Rightarrow> bytes \<Rightarrow> event list \<Rightarrow> (exn + packet) \<times> event list" where
  "decode cls b evs = (dissect cls b, evs @ [Decode (name cls) b])"

text \<open>Lines 79--88: the choice of the class and of the level.\<close>

definition l3_dispatch :: "conf \<Rightarrow> sockaddr_ll \<Rightarrow> event list \<Rightarrow> pktcls \<times> nat \<times> event list" where
  "l3_dispatch cf sa_ll evs =
     (case l2types cf (hatype sa_ll) of
        Some cls \<Rightarrow> (cls, 2, evs)
      | None \<Rightarrow>
          (case l3types cf (proto sa_ll) of
             Some cls \<Rightarrow> (cls, 3, evs)
           | None \<Rightarrow>
               (default_l2 cf, 3,
                evs @ [Warning (ifname sa_ll) (proto sa_ll) (hatype sa_ll)
                         (name (default_l2 cf))])))"

text \<open>Lines 90--97: the guarded call of the class.\<close>

definition l3_dissect ::
  "conf \<Rightarrow> pktcls \<Rightarrow> bytes \<Rightarrow> event list \<Rightarrow> (exn + packet) \<times> event list" where
  "l3_dissect cf cls pkt evs =
     (case decode cls pkt evs of
        (Inr p, evs1) \<Rightarrow> (Inr p, evs1)
      | (Inl e, evs1) \<Rightarrow>
          if e = KeyboardInterrupt then (Inl e, evs1)
          else if debug_dissector cf then (Inl e, evs1)
          else decode (raw_layer cf) pkt evs1)"

text \<open>
  \<^verbatim>\<open>L3RawSocket.recv\<close>. \<open>rd\<close> is what \<^verbatim>\<open>self.ins.recvfrom(x)\<close> yields and \<open>ts\<close> what
  \<^verbatim>\<open>get_last_packet_timestamp(self.ins)\<close> yields. The result is \<^verbatim>\<open>None\<close> or a packet.
  After the dissection \<^verbatim>\<open>pkt\<close> is a packet object, never \<^verbatim>\<open>None\<close>, so the test
  \<^verbatim>\<open>if pkt is not None\<close> always passes.
\<close>

definition L3RawSocket_recv ::
  "conf \<Rightarrow> (exn + bytes \<times> sockaddr_ll) \<Rightarrow> nat \<Rightarrow> l3_raw_socket \<Rightarrow>
   (exn + packet option) \<times> l3_raw_socket" where
  "L3RawSocket_recv cf rd ts s =
     (case rd of
        Inl e \<Rightarrow> (Inl e, s)
      | Inr (pkt, sa_ll) \<Rightarrow>
          if pkttype sa_ll = PACKET_OUTGOING then (Inr None, s)
          else (case l3_dispatch cf sa_ll (log s) of
                  (cls, lvl, evs1) \<Rightarrow>
                    (case l3_dissect cf cls pkt evs1 of
                       (Inl e, evs2) \<Rightarrow> (Inl e, s\<lparr>log := evs2\<rparr>)
                     | (Inr p, evs2) \<Rightarrow>
                         (let p1 = (if lvl = 2 then payload p else p)
                          in (Inr (Some (p1\<lparr>time := Some ts\<rparr>)), s\<lparr>log := evs2\<rparr>)))))"

text \<open>
  Modelled from the spec: \<^verbatim>\<open>x.dst\<close> of the absent packet class is the destination field
  of the frame, that of the first layer that has one; no layer having one is an
  \<^verbatim>\<open>AttributeError\<close>.
\<close>

fun getattr_dst :: "layer list \<Rightarrow> exn + string" where
  "getattr_dst [] = Inl (AttributeError ''dst'')"
| "getattr_dst (l # ls) = (case dst l of Some d \<Rightarrow> Inr d | None \<Rightarrow> getattr_dst ls)"

text \<open>
  \<^verbatim>\<open>L3RawSocket.send\<close>. \<open>now\<close> is what \<^verbatim>\<open>time.time()\<close> yields, \<open>err\<close> the exception
  \<^verbatim>\<open>self.outs.sendto\<close> raises, if any, and \<open>lg\<close> the exception the call
  \<^verbatim>\<open>log_runtime.error(msg)\<close> of line 111 raises, if any: the logger is not part of the
  module, it is handed the exception object, and nothing guards the call. The frame is
  returned too, since the method stamps it. Only \<^verbatim>\<open>socket.error\<close> is caught.
\<close>

definition L3RawSocket_send ::
  "nat \<Rightarrow> exn option \<Rightarrow> exn option \<Rightarrow> packet \<Rightarrow> l3_raw_socket \<Rightarrow>
   (exn + unit) \<times> packet \<times> l3_raw_socket" where
  "L3RawSocket_send now err lg x s =
     (let sx = str_pkt x;
          x1 = x\<lparr>sent_time := Some now\<rparr>
      in case getattr_dst (layers x1) of
           Inl e \<Rightarrow> (Inl e, x1, s)
         | Inr d \<Rightarrow>
             (case err of
                None \<Rightarrow> (Inr (), x1, s\<lparr>sent := sent s @ [(sx, d, 0)]\<rparr>)
              | Some e \<Rightarrow>
                  (case e of
                     SocketError n msg \<Rightarrow>
                       (case lg of
                          None \<Rightarrow> (Inr (), x1, s\<lparr>log := log s @ [LogError e]\<rparr>)
                        | Some e' \<Rightarrow> (Inl e', x1, s))
                   | _ \<Rightarrow> (Inl e, x1, s))))"

section \<open>\<^verbatim>\<open>StreamSocket\<close>\<close>

record stream_socket = supersocket +
  ins :: sock

definition torn_down :: exn where
  "torn_down = SocketError 100 ''Underlying stream socket tore down''"

definition StreamSocket_recv ::
  "conf \<Rightarrow> pktcls \<Rightarrow> int \<Rightarrow> stream_socket \<Rightarrow> (exn + packet) \<times> stream_socket" where
  "StreamSocket_recv cf basecls x s =
     (case sock_recv x True (ins s) of
        (Inl e, i1) \<Rightarrow> (Inl e, s\<lparr>ins := i1\<rparr>)
      | (Inr pkt, i1) \<Rightarrow>
          (let x1 = int (length pkt)
           in if x1 = 0 then (Inl torn_down, s\<lparr>ins := i1\<rparr>)
              else (case decode basecls pkt (log s) of
                      (Inl e, evs) \<Rightarrow> (Inl e, s\<lparr>ins := i1, log := evs\<rparr>)
                    | (Inr p, evs) \<Rightarrow>
                        (case strip_padding (padding_layer cf) p x1 of
                           (p', x2) \<Rightarrow>
                             (case sock_recv x2 False i1 of
                                (Inl e, i2) \<Rightarrow> (Inl e, s\<lparr>ins := i2, log := evs\<rparr>)
                              | (Inr _, i2) \<Rightarrow> (Inr p', s\<lparr>ins := i2, log := evs\<rparr>))))))"

text \<open>
  A run of sequential \<^verbatim>\<open>recv\<close> calls; before the \<open>i\<close>-th call, the \<open>i\<close>-th number of
  the schedule says how many more segments have arrived.
\<close>

fun recv_n ::
  "conf \<Rightarrow> pktcls \<Rightarrow> int \<Rightarrow> nat list \<Rightarrow> stream_socket \<Rightarrow>
   (exn + packet) list \<times> stream_socket" where
  "recv_n cf basecls x [] s = ([], s)"
| "recv_n cf basecls x (k # ks) s =
     (case StreamSocket_recv cf basecls x (s\<lparr>ins := arrive k (ins s)\<rparr>) of
        (r, s1) \<Rightarrow> (case recv_n cf basecls x ks s1 of (rs, s2) \<Rightarrow> (r # rs, s2)))"

text \<open>
  What it means for a class to frame a stream: the class decodes the non-empty byte
  string \<open>f\<close>, followed by any further bytes, to the packet \<open>p\<close> (which has no padding
  layer of its own), and leaves the further bytes as one padding layer under \<open>p\<close>.
\<close>

definition pad_layer :: "conf \<Rightarrow> bytes \<Rightarrow> layer" where
  "pad_layer cf b = \<lparr>lclass = padding_layer cf, load = b, dst = None\<rparr>"

definition frames_as :: "conf \<Rightarrow> pktcls \<Rightarrow> bytes \<Rightarrow> packet \<Rightarrow> bool" where
  "frames_as cf basecls f p \<longleftrightarrow>
     f \<noteq> [] \<and> layers p \<noteq> [] \<and> getlayer (padding_layer cf) (layers p) = None \<and>
     (\<forall>rest. dissect basecls (f @ rest) =
        Inr (if rest = [] then p else p\<lparr>layers := layers p @ [pad_layer cf rest]\<rparr>))"

text \<open>The bytes of a segment that holds whole frames only.\<close>

definition seg_bytes :: "(bytes \<times> packet) list \<Rightarrow> bytes" where
  "seg_bytes seg = concat (map fst seg)"

section \<open>\<^verbatim>\<open>SSLStreamSocket\<close>\<close>

record ssl_stream_socket = stream_socket +
  buf :: bytes

text \<open>
  \<^verbatim>\<open>s[x:]\<close> for an integer \<open>x\<close>: a negative \<open>x\<close> counts from the end, and the bounds
  are clipped.
\<close>

definition slice_from :: "bytes \<Rightarrow> int \<Rightarrow> bytes" where
  "slice_from b x = (if x < 0 then drop (nat (int (length b) + x)) b else drop (nat x) b)"

text \<open>
  Lines 153--159: the guarded first call of the class on a non-empty buffer; the bare
  \<^verbatim>\<open>except\<close> swallows every exception.
\<close>

definition ssl_try ::
  "pktcls \<Rightarrow> ssl_stream_socket \<Rightarrow> packet option \<times> ssl_stream_socket" where
  "ssl_try basecls s =
     (if buf s \<noteq> [] then
        (case decode basecls (buf s) (log s) of
           (Inl e, evs) \<Rightarrow> (None, s\<lparr>log := evs\<rparr>)
         | (Inr p, evs) \<Rightarrow> (Some p, s\<lparr>log := evs\<rparr>))
      else (None, s))"

text \<open>Lines 162--165: one blocking read, appended to the buffer.\<close>

definition ssl_read :: "int \<Rightarrow> ssl_stream_socket \<Rightarrow> (exn + unit) \<times> ssl_stream_socket" where
  "ssl_read x s =
     (case sock_recv x False (ins s) of
        (Inl e, i1) \<Rightarrow> (Inl e, s\<lparr>ins := i1\<rparr>)
      | (Inr b, i1) \<Rightarrow>
          if length b = 0 then (Inl torn_down, s\<lparr>ins := i1\<rparr>)
          else (Inr (), s\<lparr>ins := i1, buf := buf s @ b\<rparr>))"

text \<open>Lines 167--177: the unguarded call of the class on the whole buffer.\<close>

definition ssl_take ::
  "conf \<Rightarrow> pktcls \<Rightarrow> ssl_stream_socket \<Rightarrow> (exn + packet) \<times> ssl_stream_socket" where
  "ssl_take cf basecls s =
     (let x = int (length (buf s))
      in case decode basecls (buf s) (log s) of
           (Inl e, evs) \<Rightarrow> (Inl e, s\<lparr>log := evs\<rparr>)
         | (Inr p, evs) \<Rightarrow>
             (case strip_padding (padding_layer cf) p x of
                (p', x2) \<Rightarrow> (Inr p', s\<lparr>log := evs, buf := slice_from (buf s) x2\<rparr>)))"

text \<open>Lines 153--165: the buffer is filled by a read unless the first call gave a packet.\<close>

definition ssl_fill ::
  "pktcls \<Rightarrow> int \<Rightarrow> ssl_stream_socket \<Rightarrow> (exn + unit) \<times> ssl_stream_socket" where
  "ssl_fill basecls x s =
     (case ssl_try basecls s of
        (pkt, s0) \<Rightarrow> if \<not> truthy pkt then ssl_read x s0 else (Inr (), s0))"

definition SSLStreamSocket_recv ::
  "conf \<Rightarrow> pktcls \<Rightarrow> int \<Rightarrow> ssl_stream_socket \<Rightarrow> (exn + packet) \<times> ssl_stream_socket" where
  "SSLStreamSocket_recv cf basecls x s =
     (case ssl_fill basecls x s of
        (Inl e, s1) \<Rightarrow> (Inl e, s1)
      | (Inr _, s1) \<Rightarrow> ssl_take cf basecls s1)"

section \<open>Example classes and states\<close>

text \<open>
  Small packet classes on which the model is run: the opaque class \<^verbatim>\<open>Raw\<close>, the class
  \<^verbatim>\<open>Padding\<close>, a class of two-byte frames that leaves the bytes after the frame as
  padding, a class of four-byte records that raises on shorter input, a link-layer class with a
  two-byte header that raises on shorter input, and a network-layer class with a
  destination.
\<close>

definition mk_layer :: "string \<Rightarrow> bytes \<Rightarrow> layer" where
  "mk_layer c b = \<lparr>lclass = c, load = b, dst = None\<rparr>"

definition mk_packet :: "layer list \<Rightarrow> packet" where
  "mk_packet ls = \<lparr>layers = ls, time = None, sent_time = None\<rparr>"

definition raw_cls :: pktcls where
  "raw_cls = \<lparr>name = ''Raw'', dissect = (\<lambda>b. Inr (mk_packet [mk_layer ''Raw'' b]))\<rparr>"

definition padding_cls :: pktcls where
  "padding_cls =
     \<lparr>name = ''Padding'', dissect = (\<lambda>b. Inr (mk_packet [mk_layer ''Padding'' b]))\<rparr>"

definition pair_cls :: pktcls where
  "pair_cls =
     \<lparr>name = ''Pair'',
      dissect = (\<lambda>b. Inr (mk_packet (mk_layer ''Pair'' (take 2 b) #
                   (if drop 2 b = [] then [] else [mk_layer ''Padding'' (drop 2 b)]))))\<rparr>"

definition link_cls :: pktcls where
  "link_cls =
     \<lparr>name = ''Link'',
      dissect = (\<lambda>b. if length b < 2 then Inl (OtherError ''truncated'')
                     else Inr (mk_packet [mk_layer ''Link'' (take 2 b),
                                          mk_layer ''Raw'' (drop 2 b)]))\<rparr>"

definition rec4_cls :: pktcls where
  "rec4_cls =
     \<lparr>name = ''Rec'',
      dissect = (\<lambda>b. if length b < 4 then Inl (OtherError ''short record'')
                     else Inr (mk_packet (mk_layer ''Rec'' (take 4 b) #
                            (if drop 4 b = [] then [] else [mk_layer ''Padding'' (drop 4 b)]))))\<rparr>"

definition net_cls :: pktcls where
  "net_cls =
     \<lparr>name = ''Net'',
      dissect = (\<lambda>b. Inr (mk_packet [\<lparr>lclass = ''Net'', load = b, dst = Some ''10.0.0.1''\<rparr>]))\<rparr>"

definition conf0 :: conf where
  "conf0 =
     \<lparr>l2types = [1 \<mapsto> link_cls], l3types = [2048 \<mapsto> net_cls], default_l2 = link_cls,
      raw_layer = raw_cls, padding_layer = ''Padding'', debug_dissector = False\<rparr>"

definition mk_sock :: "bytes \<Rightarrow> bytes list \<Rightarrow> sock" where
  "mk_sock b segs = \<lparr>rcvbuf = b, inflight = segs\<rparr>"

definition mk_stream :: "bytes \<Rightarrow> bytes list \<Rightarrow> stream_socket" where
  "mk_stream b segs = \<lparr>log = [], ins = mk_sock b segs\<rparr>"

definition mk_ssl :: "bytes \<Rightarrow> bytes \<Rightarrow> bytes list \<Rightarrow> ssl_stream_socket" where
  "mk_ssl bf b segs = \<lparr>log = [], ins = mk_sock b segs, buf = bf\<rparr>"

definition mk_l3 :: l3_raw_socket where
  "mk_l3 = \<lparr>log = [], sent = []\<rparr>"

definition mk_addr :: "int \<Rightarrow> int \<Rightarrow> int \<Rightarrow> sockaddr_ll" where
  "mk_addr pr pt ha = \<lparr>ifname = ''eth0'', proto = pr, pkttype = pt, hatype = ha\<rparr>"

section \<open>Layers, padding and sockets: basic facts\<close>

lemma getlayer_split:
  "getlayer c ls = Some (und, pads) \<Longrightarrow> ls = und @ pads \<and> pads \<noteq> []"
  by (induction ls arbitrary: und) (auto split: if_splits option.splits)

lemma getlayer_append_fresh:
  "getlayer c ls = None \<Longrightarrow> lclass l = c \<Longrightarrow> getlayer c (ls @ l # r) = Some (ls, l # r)"
  by (induction ls) (auto split: if_splits option.splits)

lemma pad_walk_eq: "pad_walk pads x = x - int (length (wire pads))"
  by (induction pads arbitrary: x) (auto simp: wire_def)

lemma strip_padding_snd: "snd (strip_padding c p x) = x - int (padding_len c p)"
  by (auto simp: strip_padding_def padding_len_def pad_walk_eq split: option.splits)

lemma concat_dropWhile_empty: "concat (dropWhile (\<lambda>c. c = []) xs) = concat xs"
  by (induction xs) auto

lemma pending_wait: "pending (sock_wait s) = pending s"
proof (cases "rcvbuf s \<noteq> []")
  case True
  then show ?thesis by (simp add: sock_wait_def)
next
  case False
  have c: "concat (dropWhile (\<lambda>c. c = []) (inflight s)) = concat (inflight s)"
    by (rule concat_dropWhile_empty)
  show ?thesis
  proof (cases "dropWhile (\<lambda>c. c = []) (inflight s)")
    case Nil
    with False c show ?thesis by (simp add: sock_wait_def pending_def del: dropWhile_eq_Nil_conv)
  next
    case (Cons a list)
    with False c show ?thesis by (simp add: sock_wait_def pending_def del: dropWhile_eq_Nil_conv)
  qed
qed

lemma wait_idem: "rcvbuf s \<noteq> [] \<Longrightarrow> sock_wait s = s"
  by (simp add: sock_wait_def)

lemma pending_wait_split: "pending s = rcvbuf (sock_wait s) @ concat (inflight (sock_wait s))"
  by (metis pending_wait pending_def)

lemma peek_ok:
  assumes "sock_recv x True i = (Inr pkt, i1)" and "pkt \<noteq> []"
  shows "0 < x \<and> i1 = sock_wait i \<and> pkt = take (nat x) (rcvbuf i1) \<and> rcvbuf i1 \<noteq> []"
  using assms by (auto simp: sock_recv_def Let_def split: if_splits)

lemma consume_state:
  assumes "rcvbuf i \<noteq> []"
  shows "sock_recv (int k) False i = (Inr (take k (rcvbuf i)), i\<lparr>rcvbuf := drop k (rcvbuf i)\<rparr>)"
proof (cases "k = 0")
  case True
  then show ?thesis by (simp add: sock_recv_def)
next
  case False
  with assms show ?thesis by (simp add: sock_recv_def Let_def wait_idem)
qed

lemma stream_recv_state:
  assumes pk: "sock_recv x True (ins s) = (Inr pkt, ia)" and ne: "pkt \<noteq> []"
    and dec: "dissect basecls pkt = Inr p"
    and le: "padding_len (padding_layer cf) p \<le> length pkt"
  shows "StreamSocket_recv cf basecls x s =
           (Inr (fst (strip_padding (padding_layer cf) p (int (length pkt)))),
            s\<lparr>ins := ia\<lparr>rcvbuf := drop (length pkt - padding_len (padding_layer cf) p) (rcvbuf ia)\<rparr>,
              log := log s @ [Decode (name basecls) pkt]\<rparr>)"
proof -
  let ?P = "padding_len (padding_layer cf) p"
  let ?k = "length pkt - ?P"
  from peek_ok[OF pk ne] have rb: "rcvbuf ia \<noteq> []" by auto
  have rc: "sock_recv (int ?k) False ia = (Inr (take ?k (rcvbuf ia)), ia\<lparr>rcvbuf := drop ?k (rcvbuf ia)\<rparr>)"
    by (rule consume_state[OF rb])
  have x2: "snd (strip_padding (padding_layer cf) p (int (length pkt))) = int ?k"
    using le by (simp add: strip_padding_snd)
  obtain p' x2' where sp: "strip_padding (padding_layer cf) p (int (length pkt)) = (p', x2')"
    by (cases "strip_padding (padding_layer cf) p (int (length pkt))")
  with x2 have x2': "x2' = int ?k" by simp
  show ?thesis
    using pk ne dec sp rc x2'
    by (simp add: StreamSocket_recv_def Let_def decode_def)
qed

lemma stream_recv_ok:
  assumes pk: "sock_recv x True (ins s) = (Inr pkt, ia)" and ne: "pkt \<noteq> []"
    and dec: "dissect basecls pkt = Inr p"
    and le: "padding_len (padding_layer cf) p \<le> length pkt"
  shows "\<exists>s'. StreamSocket_recv cf basecls x s =
             (Inr (fst (strip_padding (padding_layer cf) p (int (length pkt)))), s')
           \<and> pending (ins s') =
               drop (length pkt - padding_len (padding_layer cf) p) (pending (ins s))"
proof -
  from peek_ok[OF pk ne] have ia: "ia = sock_wait (ins s)" and rb: "rcvbuf ia \<noteq> []"
    and pkt: "pkt = take (nat x) (rcvbuf ia)" by auto
  let ?k = "length pkt - padding_len (padding_layer cf) p"
  have kl: "?k \<le> length (rcvbuf ia)" using pkt by simp
  have pe: "pending (ia\<lparr>rcvbuf := drop ?k (rcvbuf ia)\<rparr>) = drop ?k (pending ia)"
    using kl by (simp add: pending_def)
  have "pending ia = pending (ins s)" using ia by (simp add: pending_wait)
  with pe have "pending (ia\<lparr>rcvbuf := drop ?k (rcvbuf ia)\<rparr>) = drop ?k (pending (ins s))"
    by simp
  with stream_recv_state[OF pk ne dec le] show ?thesis by simp
qed

lemma ssl_take_ok:
  assumes dec: "dissect basecls (buf t1) = Inr q"
    and le: "padding_len (padding_layer cf) q \<le> length (buf t1)"
  shows "ssl_take cf basecls t1 =
           (Inr (fst (strip_padding (padding_layer cf) q (int (length (buf t1))))),
            t1\<lparr>log := log t1 @ [Decode (name basecls) (buf t1)],
               buf := drop (length (buf t1) - padding_len (padding_layer cf) q) (buf t1)\<rparr>)"
proof -
  let ?P = "padding_len (padding_layer cf) q"
  let ?L = "length (buf t1)"
  have x2: "snd (strip_padding (padding_layer cf) q (int ?L)) = int (?L - ?P)"
    using le by (simp add: strip_padding_snd)
  obtain p' x2' where sp: "strip_padding (padding_layer cf) q (int ?L) = (p', x2')"
    by (cases "strip_padding (padding_layer cf) q (int ?L)")
  with x2 have "x2' = int (?L - ?P)" by simp
  then have "slice_from (buf t1) x2' = drop (?L - ?P) (buf t1)"
    by (simp add: slice_from_def)
  then show ?thesis using dec sp
    by (simp add: ssl_take_def Let_def decode_def)
qed

lemma ssl_recv_ok:
  assumes fill: "ssl_fill basecls x t = (Inr (), t1)"
    and dec: "dissect basecls (buf t1) = Inr q"
    and le: "padding_len (padding_layer cf) q \<le> length (buf t1)"
  shows "SSLStreamSocket_recv cf basecls x t =
           (Inr (fst (strip_padding (padding_layer cf) q (int (length (buf t1))))),
            t1\<lparr>log := log t1 @ [Decode (name basecls) (buf t1)],
               buf := drop (length (buf t1) - padding_len (padding_layer cf) q) (buf t1)\<rparr>)"
  using fill ssl_take_ok[OF dec le] by (simp add: SSLStreamSocket_recv_def)

lemma wire_append: "wire (a @ b) = wire a @ wire b"
  by (simp add: wire_def)

lemma padding_len_le_wire: "padding_len c q \<le> length (str_pkt q)"
  by (auto simp: padding_len_def str_pkt_def wire_append dest!: getlayer_split split: option.splits)

lemma ssl_try_fail:
  "buf t \<noteq> [] \<Longrightarrow> dissect basecls (buf t) = Inl e \<Longrightarrow>
     ssl_try basecls t = (None, t\<lparr>log := log t @ [Decode (name basecls) (buf t)]\<rparr>)"
  by (simp add: ssl_try_def decode_def)

lemma ssl_try_ok:
  "buf t \<noteq> [] \<Longrightarrow> dissect basecls (buf t) = Inr p \<Longrightarrow>
     ssl_try basecls t = (Some p, t\<lparr>log := log t @ [Decode (name basecls) (buf t)]\<rparr>)"
  by (simp add: ssl_try_def decode_def)

lemma ssl_take_fail:
  "dissect basecls (buf t) = Inl e \<Longrightarrow>
     ssl_take cf basecls t = (Inl e, t\<lparr>log := log t @ [Decode (name basecls) (buf t)]\<rparr>)"
  by (simp add: ssl_take_def decode_def Let_def)

section \<open>The padding law\<close>

text \<open>
  Claim C1. In \<^verbatim>\<open>StreamSocket.recv\<close>, when the peek returns the non-empty bytes \<open>pkt\<close>
  and the class decodes them to a frame whose padding chain has total length \<open>P\<close>, the
  call returns the frame and removes from the channel exactly \<open>length pkt - P\<close> bytes.
  In \<^verbatim>\<open>SSLStreamSocket.recv\<close>, when the buffer at line 167 is \<open>buf tb\<close> and decodes to a
  frame with padding length \<open>P\<close>, the call returns the frame and removes from the buffer
  exactly \<open>length (buf tb) - P\<close> bytes, its prefix. \<open>P\<close> ranges over everything from
  \<open>0\<close> (no padding layer) to the full length (the frame is padding at its root, which
  only changes the returned frame, not the count). The padding is part of the decoded
  bytes, so \<open>P\<close> is at most their length.
\<close>

theorem padding_law:
  "(sock_recv x True (ins s) = (Inr pkt, ia) \<and> pkt \<noteq> [] \<and> dissect basecls pkt = Inr p
      \<and> padding_len (padding_layer cf) p \<le> length pkt \<longrightarrow>
    (\<exists>s'. StreamSocket_recv cf basecls x s =
            (Inr (fst (strip_padding (padding_layer cf) p (int (length pkt)))), s')
        \<and> pending (ins s') =
            drop (length pkt - padding_len (padding_layer cf) p) (pending (ins s))
        \<and> length (pending (ins s)) - length (pending (ins s')) =
            length pkt - padding_len (padding_layer cf) p))
   \<and> (ssl_fill basecls x t = (Inr (), tb) \<and> dissect basecls (buf tb) = Inr q
      \<and> padding_len (padding_layer cf) q \<le> length (buf tb) \<longrightarrow>
    (\<exists>t'. SSLStreamSocket_recv cf basecls x t =
            (Inr (fst (strip_padding (padding_layer cf) q (int (length (buf tb))))), t')
        \<and> ins t' = ins tb
        \<and> buf t' = drop (length (buf tb) - padding_len (padding_layer cf) q) (buf tb)
        \<and> length (buf tb) - length (buf t') =
            length (buf tb) - padding_len (padding_layer cf) q))"
proof (intro conjI impI)
  assume a: "sock_recv x True (ins s) = (Inr pkt, ia) \<and> pkt \<noteq> [] \<and> dissect basecls pkt = Inr p
      \<and> padding_len (padding_layer cf) p \<le> length pkt"
  then have pk: "sock_recv x True (ins s) = (Inr pkt, ia)" and ne: "pkt \<noteq> []"
    and dec: "dissect basecls pkt = Inr p"
    and le: "padding_len (padding_layer cf) p \<le> length pkt" by auto
  from stream_recv_ok[OF pk ne dec le] obtain s' where
    r: "StreamSocket_recv cf basecls x s =
          (Inr (fst (strip_padding (padding_layer cf) p (int (length pkt)))), s')"
    and d: "pending (ins s') =
          drop (length pkt - padding_len (padding_layer cf) p) (pending (ins s))" by blast
  from peek_ok[OF pk ne] have "length pkt \<le> length (pending (ins s))"
    using pending_wait_split[of "ins s"] by simp
  with d r show "\<exists>s'. StreamSocket_recv cf basecls x s =
            (Inr (fst (strip_padding (padding_layer cf) p (int (length pkt)))), s')
        \<and> pending (ins s') =
            drop (length pkt - padding_len (padding_layer cf) p) (pending (ins s))
        \<and> length (pending (ins s)) - length (pending (ins s')) =
            length pkt - padding_len (padding_layer cf) p"
    by auto
next
  assume a: "ssl_fill basecls x t = (Inr (), tb) \<and> dissect basecls (buf tb) = Inr q
      \<and> padding_len (padding_layer cf) q \<le> length (buf tb)"
  then have fill: "ssl_fill basecls x t = (Inr (), tb)"
    and dec: "dissect basecls (buf tb) = Inr q"
    and le: "padding_len (padding_layer cf) q \<le> length (buf tb)" by auto
  from ssl_recv_ok[OF fill dec le] le
  show "\<exists>t'. SSLStreamSocket_recv cf basecls x t =
            (Inr (fst (strip_padding (padding_layer cf) q (int (length (buf tb))))), t')
        \<and> ins t' = ins tb
        \<and> buf t' = drop (length (buf tb) - padding_len (padding_layer cf) q) (buf tb)
        \<and> length (buf tb) - length (buf t') =
            length (buf tb) - padding_len (padding_layer cf) q"
    by simp
qed

theorem padding_law_witness:
  "(sock_recv 1500 True (ins (mk_stream ''abcd'' [])) = (Inr ''abcd'', ins (mk_stream ''abcd'' []))
      \<and> ''abcd'' \<noteq> []
      \<and> dissect pair_cls ''abcd'' =
          Inr (mk_packet [mk_layer ''Pair'' ''ab'', mk_layer ''Padding'' ''cd''])
      \<and> padding_len (padding_layer conf0)
          (mk_packet [mk_layer ''Pair'' ''ab'', mk_layer ''Padding'' ''cd'']) \<le> length ''abcd'')
   \<and> (\<exists>s'. StreamSocket_recv conf0 pair_cls 1500 (mk_stream ''abcd'' []) =
              (Inr (mk_packet [mk_layer ''Pair'' ''ab'']), s')
          \<and> pending (ins s') = ''cd'')
   \<and> (ssl_fill padding_cls 65535 (mk_ssl [] ''abc'' []) = (Inr (), mk_ssl ''abc'' [] [])
      \<and> dissect padding_cls (buf (mk_ssl ''abc'' [] [])) =
          Inr (mk_packet [mk_layer ''Padding'' ''abc''])
      \<and> padding_len (padding_layer conf0) (mk_packet [mk_layer ''Padding'' ''abc''])
          \<le> length (buf (mk_ssl ''abc'' [] [])))
   \<and> (\<exists>t'. SSLStreamSocket_recv conf0 padding_cls 65535 (mk_ssl [] ''abc'' []) =
              (Inr (mk_packet [mk_layer ''Padding'' ''abc'']), t')
          \<and> buf t' = ''abc'')"
proof -
  let ?p = "mk_packet [mk_layer ''Pair'' ''ab'', mk_layer ''Padding'' ''cd'']"
  let ?q = "mk_packet [mk_layer ''Padding'' ''abc'']"
  have h1: "sock_recv 1500 True (ins (mk_stream ''abcd'' [])) =
              (Inr ''abcd'', ins (mk_stream ''abcd'' []))
      \<and> ''abcd'' \<noteq> [] \<and> dissect pair_cls ''abcd'' = Inr ?p
      \<and> padding_len (padding_layer conf0) ?p \<le> length ''abcd''"
    by (simp add: sock_recv_def sock_wait_def mk_stream_def mk_sock_def Let_def pair_cls_def
        padding_len_def conf0_def mk_packet_def mk_layer_def wire_def)
  have h2: "ssl_fill padding_cls 65535 (mk_ssl [] ''abc'' []) = (Inr (), mk_ssl ''abc'' [] [])
      \<and> dissect padding_cls (buf (mk_ssl ''abc'' [] [])) = Inr ?q
      \<and> padding_len (padding_layer conf0) ?q \<le> length (buf (mk_ssl ''abc'' [] []))"
    by (simp add: ssl_fill_def ssl_try_def ssl_read_def truthy_def sock_recv_def sock_wait_def
        mk_ssl_def mk_sock_def Let_def padding_cls_def padding_len_def conf0_def mk_packet_def
        mk_layer_def wire_def)
  have e1: "fst (strip_padding (padding_layer conf0) ?p (int (length ''abcd''))) =
              mk_packet [mk_layer ''Pair'' ''ab'']"
    by (simp add: strip_padding_def conf0_def mk_packet_def mk_layer_def)
  have e2: "fst (strip_padding (padding_layer conf0) ?q
              (int (length (buf (mk_ssl ''abc'' [] []))))) = ?q"
    by (simp add: strip_padding_def conf0_def mk_packet_def mk_layer_def)
  have pd: "pending (ins (mk_stream ''abcd'' [])) = ''abcd''"
    by (simp add: pending_def mk_stream_def mk_sock_def)
  have bf: "buf (mk_ssl ''abc'' [] []) = ''abc''"
    by (simp add: mk_ssl_def)
  from padding_law[THEN conjunct1, rule_format, OF h1]
  obtain s' where a1: "StreamSocket_recv conf0 pair_cls 1500 (mk_stream ''abcd'' []) =
        (Inr (fst (strip_padding (padding_layer conf0) ?p (int (length ''abcd'')))), s')"
    and b1: "pending (ins s') =
        drop (length ''abcd'' - padding_len (padding_layer conf0) ?p)
          (pending (ins (mk_stream ''abcd'' [])))"
    by blast
  from b1 have "pending (ins s') = ''cd''"
    by (simp add: pd padding_len_def conf0_def mk_packet_def mk_layer_def wire_def)
  with a1 have c1: "\<exists>s'. StreamSocket_recv conf0 pair_cls 1500 (mk_stream ''abcd'' []) =
              (Inr (mk_packet [mk_layer ''Pair'' ''ab'']), s')
          \<and> pending (ins s') = ''cd''"
    unfolding e1 by blast
  from padding_law[THEN conjunct2, rule_format, OF h2]
  obtain t' where a2: "SSLStreamSocket_recv conf0 padding_cls 65535 (mk_ssl [] ''abc'' []) =
        (Inr (fst (strip_padding (padding_layer conf0) ?q
           (int (length (buf (mk_ssl ''abc'' [] [])))))), t')"
    and b2: "buf t' =
        drop (length (buf (mk_ssl ''abc'' [] [])) - padding_len (padding_layer conf0) ?q)
          (buf (mk_ssl ''abc'' [] []))"
    by blast
  from b2 have "buf t' = ''abc''"
    by (simp add: bf padding_len_def conf0_def mk_packet_def mk_layer_def wire_def)
  with a2 have c2: "\<exists>t'. SSLStreamSocket_recv conf0 padding_cls 65535 (mk_ssl [] ''abc'' []) =
              (Inr ?q, t') \<and> buf t' = ''abc''"
    unfolding e2 by blast
  from h1 c1 h2 c2 show ?thesis by blast
qed

section \<open>The buffer of \<^verbatim>\<open>SSLStreamSocket\<close>\<close>

text \<open>
  Claim C2, as stated, fails: with a class that decodes the buffer to a frame that is
  padding at its root, the call returns the frame \<^verbatim>\<open>Padding('abc')\<close> and the buffer
  still holds \<^verbatim>\<open>'abc'\<close>, every byte of the frame just returned.
\<close>

theorem buffer_keeps_returned_padding:
  "fst (SSLStreamSocket_recv conf0 padding_cls 65535 (mk_ssl [] ''abc'' [])) =
     Inr (mk_packet [mk_layer ''Padding'' ''abc''])
   \<and> str_pkt (mk_packet [mk_layer ''Padding'' ''abc'']) = ''abc''
   \<and> buf (snd (SSLStreamSocket_recv conf0 padding_cls 65535 (mk_ssl [] ''abc'' []))) = ''abc''"
  by (simp add: SSLStreamSocket_recv_def ssl_fill_def ssl_try_def ssl_read_def ssl_take_def
      truthy_def sock_recv_def sock_wait_def mk_ssl_def mk_sock_def Let_def padding_cls_def
      decode_def strip_padding_def slice_from_def conf0_def mk_packet_def mk_layer_def
      str_pkt_def wire_def)

text \<open>
  Claim C2, amended. With a class that accounts for every byte of the buffer
  (\<open>str_pkt q = buf tb\<close>), after a successful call the buffer holds exactly the bytes of
  the padding chain of the decoded frame. When there is no padding layer the buffer is
  empty; when the padding layer has an underlayer the returned frame is the chain above
  the padding, and its bytes followed by the kept buffer are the old buffer, so no byte
  of the returned frame is kept; when the frame is padding at its root the frame is
  returned whole and the buffer is left as it was.
\<close>

theorem buffer_holds_only_padding:
  assumes fill: "ssl_fill basecls x t = (Inr (), tb)"
    and dec: "dissect basecls (buf tb) = Inr q"
    and faithful: "str_pkt q = buf tb"
  shows "(getlayer (padding_layer cf) (layers q) = None \<longrightarrow>
            fst (SSLStreamSocket_recv cf basecls x t) = Inr q
          \<and> buf (snd (SSLStreamSocket_recv cf basecls x t)) = [])
       \<and> (getlayer (padding_layer cf) (layers q) = Some (und, pads) \<and> und \<noteq> [] \<longrightarrow>
            fst (SSLStreamSocket_recv cf basecls x t) = Inr (q\<lparr>layers := und\<rparr>)
          \<and> buf (snd (SSLStreamSocket_recv cf basecls x t)) = wire pads
          \<and> wire und @ buf (snd (SSLStreamSocket_recv cf basecls x t)) = buf tb)
       \<and> (getlayer (padding_layer cf) (layers q) = Some ([], pads) \<longrightarrow>
            fst (SSLStreamSocket_recv cf basecls x t) = Inr q
          \<and> buf (snd (SSLStreamSocket_recv cf basecls x t)) = buf tb)"
proof -
  let ?P = "padding_len (padding_layer cf) q"
  let ?R = "SSLStreamSocket_recv cf basecls x t"
  have le: "?P \<le> length (buf tb)" using padding_len_le_wire[of "padding_layer cf" q] faithful by simp
  note r = ssl_recv_ok[OF fill dec le]
  have f: "fst ?R = Inr (fst (strip_padding (padding_layer cf) q (int (length (buf tb)))))"
    and b: "buf (snd ?R) = drop (length (buf tb) - ?P) (buf tb)"
    using r by simp_all
  show ?thesis
  proof (intro conjI impI)
    assume n: "getlayer (padding_layer cf) (layers q) = None"
    then show "fst ?R = Inr q" using f by (simp add: strip_padding_def)
    from n show "buf (snd ?R) = []" using b by (simp add: padding_len_def)
  next
    assume a: "getlayer (padding_layer cf) (layers q) = Some (und, pads) \<and> und \<noteq> []"
    then have g: "getlayer (padding_layer cf) (layers q) = Some (und, pads)" and u: "und \<noteq> []" by auto
    from getlayer_split[OF g] faithful have w: "buf tb = wire und @ wire pads"
      by (simp add: str_pkt_def wire_append)
    from g u show "fst ?R = Inr (q\<lparr>layers := und\<rparr>)" using f by (simp add: strip_padding_def)
    from g w show bp: "buf (snd ?R) = wire pads" using b by (simp add: padding_len_def)
    from bp w show "wire und @ buf (snd ?R) = buf tb" by simp
  next
    assume g: "getlayer (padding_layer cf) (layers q) = Some ([], pads)"
    from getlayer_split[OF g] faithful have w: "buf tb = wire pads"
      by (simp add: str_pkt_def)
    from g show "fst ?R = Inr q" using f by (simp add: strip_padding_def)
    from g w show "buf (snd ?R) = buf tb" using b by (simp add: padding_len_def)
  qed
qed

theorem buffer_holds_only_padding_witness:
  "ssl_fill rec4_cls 65535 (mk_ssl ''ab'' ''cdef'' []) =
     (Inr (), \<lparr>log = [Decode ''Rec'' ''ab''], ins = mk_sock [] [], buf = ''abcdef''\<rparr>)
   \<and> dissect rec4_cls ''abcdef'' =
       Inr (mk_packet [mk_layer ''Rec'' ''abcd'', mk_layer ''Padding'' ''ef''])
   \<and> str_pkt (mk_packet [mk_layer ''Rec'' ''abcd'', mk_layer ''Padding'' ''ef'']) = ''abcdef''
   \<and> getlayer (padding_layer conf0)
         (layers (mk_packet [mk_layer ''Rec'' ''abcd'', mk_layer ''Padding'' ''ef''])) =
       Some ([mk_layer ''Rec'' ''abcd''], [mk_layer ''Padding'' ''ef''])
   \<and> fst (SSLStreamSocket_recv conf0 rec4_cls 65535 (mk_ssl ''ab'' ''cdef'' [])) =
       Inr (mk_packet [mk_layer ''Rec'' ''abcd''])
   \<and> buf (snd (SSLStreamSocket_recv conf0 rec4_cls 65535 (mk_ssl ''ab'' ''cdef'' []))) = ''ef''"
proof -
  let ?tb = "\<lparr>log = [Decode ''Rec'' ''ab''], ins = mk_sock [] [], buf = ''abcdef''\<rparr>"
  let ?q = "mk_packet [mk_layer ''Rec'' ''abcd'', mk_layer ''Padding'' ''ef'']"
  have h1: "ssl_fill rec4_cls 65535 (mk_ssl ''ab'' ''cdef'' []) = (Inr (), ?tb)"
    by (simp add: ssl_fill_def ssl_try_def ssl_read_def truthy_def sock_recv_def sock_wait_def
        mk_ssl_def mk_sock_def Let_def rec4_cls_def decode_def)
  have h2: "dissect rec4_cls (buf ?tb) = Inr ?q"
    by (simp add: rec4_cls_def)
  have h3: "str_pkt ?q = buf ?tb"
    by (simp add: str_pkt_def wire_def mk_packet_def mk_layer_def)
  have h4: "getlayer (padding_layer conf0) (layers ?q) =
      Some ([mk_layer ''Rec'' ''abcd''], [mk_layer ''Padding'' ''ef''])
      \<and> [mk_layer ''Rec'' ''abcd''] \<noteq> []"
    by (simp add: conf0_def mk_packet_def mk_layer_def)
  from buffer_holds_only_padding[OF h1 h2 h3, THEN conjunct2, THEN conjunct1, rule_format, OF h4]
  have c: "fst (SSLStreamSocket_recv conf0 rec4_cls 65535 (mk_ssl ''ab'' ''cdef'' [])) =
        Inr (?q\<lparr>layers := [mk_layer ''Rec'' ''abcd'']\<rparr>)
      \<and> buf (snd (SSLStreamSocket_recv conf0 rec4_cls 65535 (mk_ssl ''ab'' ''cdef'' []))) =
        wire [mk_layer ''Padding'' ''ef'']"
    by blast
  have e1: "?q\<lparr>layers := [mk_layer ''Rec'' ''abcd'']\<rparr> = mk_packet [mk_layer ''Rec'' ''abcd'']"
    by (simp add: mk_packet_def)
  have e2: "wire [mk_layer ''Padding'' ''ef''] = ''ef''"
    by (simp add: wire_def mk_layer_def)
  from h1 h2 h3 h4 c show ?thesis unfolding e1 e2 by simp
qed

section \<open>Reads of zero bytes\<close>

text \<open>
  Claim C8. When the peek of \<^verbatim>\<open>StreamSocket.recv\<close> returns no byte, the call raises
  \<^verbatim>\<open>socket.error((100, "Underlying stream socket tore down"))\<close>. When
  \<^verbatim>\<open>SSLStreamSocket.recv\<close> reads (the first decoding gave no packet) and the read
  returns no byte, the call raises the same error and the buffer is as before. Neither
  method has a \<^verbatim>\<open>None\<close> result.
\<close>

theorem zero_read_is_fatal:
  "(sock_recv x True (ins s) = (Inr [], ia) \<longrightarrow>
      StreamSocket_recv cf basecls x s = (Inl torn_down, s\<lparr>ins := ia\<rparr>))
   \<and> (\<not> truthy (fst (ssl_try basecls t)) \<and> sock_recv x False (ins t) = (Inr [], ib) \<longrightarrow>
      fst (SSLStreamSocket_recv cf basecls x t) = Inl torn_down
      \<and> buf (snd (SSLStreamSocket_recv cf basecls x t)) = buf t)"
proof (intro conjI impI)
  assume "sock_recv x True (ins s) = (Inr [], ia)"
  then show "StreamSocket_recv cf basecls x s = (Inl torn_down, s\<lparr>ins := ia\<rparr>)"
    by (simp add: StreamSocket_recv_def)
next
  assume a: "\<not> truthy (fst (ssl_try basecls t)) \<and> sock_recv x False (ins t) = (Inr [], ib)"
  obtain pkt t0 where tr: "ssl_try basecls t = (pkt, t0)" by (cases "ssl_try basecls t")
  then have i0: "ins t0 = ins t" and b0: "buf t0 = buf t"
    by (auto simp: ssl_try_def decode_def split: if_splits sum.splits)
  from a tr i0 have rd: "ssl_read x t0 = (Inl torn_down, t0\<lparr>ins := ib\<rparr>)"
    by (simp add: ssl_read_def)
  from a tr rd have r: "SSLStreamSocket_recv cf basecls x t = (Inl torn_down, t0\<lparr>ins := ib\<rparr>)"
    by (simp add: SSLStreamSocket_recv_def ssl_fill_def)
  show "fst (SSLStreamSocket_recv cf basecls x t) = Inl torn_down" using r by simp
  show "buf (snd (SSLStreamSocket_recv cf basecls x t)) = buf t" using r b0 by simp
qed

theorem zero_read_is_fatal_witness:
  "sock_recv 1500 True (ins (mk_stream [] [])) = (Inr [], mk_sock [] [])
   \<and> StreamSocket_recv conf0 raw_cls 1500 (mk_stream [] []) =
       (Inl (SocketError 100 ''Underlying stream socket tore down''), mk_stream [] [])
   \<and> \<not> truthy (fst (ssl_try raw_cls (mk_ssl [] [] [])))
   \<and> sock_recv 65535 False (ins (mk_ssl [] [] [])) = (Inr [], mk_sock [] [])
   \<and> fst (SSLStreamSocket_recv conf0 raw_cls 65535 (mk_ssl [] [] [])) =
       Inl (SocketError 100 ''Underlying stream socket tore down'')"
proof -
  have h1: "sock_recv 1500 True (ins (mk_stream [] [])) = (Inr [], mk_sock [] [])"
    by (simp add: sock_recv_def sock_wait_def mk_stream_def mk_sock_def Let_def)
  have h2: "\<not> truthy (fst (ssl_try raw_cls (mk_ssl [] [] [])))
      \<and> sock_recv 65535 False (ins (mk_ssl [] [] [])) = (Inr [], mk_sock [] [])"
    by (simp add: ssl_try_def truthy_def sock_recv_def sock_wait_def mk_ssl_def mk_sock_def
        Let_def)
  from zero_read_is_fatal[where cf = conf0 and basecls = raw_cls, THEN conjunct1,
      rule_format, OF h1]
  have c1: "StreamSocket_recv conf0 raw_cls 1500 (mk_stream [] []) =
      (Inl (SocketError 100 ''Underlying stream socket tore down''), mk_stream [] [])"
    by (simp add: torn_down_def mk_stream_def)
  from zero_read_is_fatal[where cf = conf0, THEN conjunct2, rule_format, OF h2]
  have c2: "fst (SSLStreamSocket_recv conf0 raw_cls 65535 (mk_ssl [] [] [])) =
      Inl (SocketError 100 ''Underlying stream socket tore down'')"
    by (simp add: torn_down_def)
  from h1 c1 h2 c2 show ?thesis by blast
qed

section \<open>The two decodings of \<^verbatim>\<open>SSLStreamSocket.recv\<close>\<close>

text \<open>
  Claim C10. Only the first call of the class is guarded. When the buffer is not empty
  and the first call raises \<open>e0\<close> (any exception), the method goes on to read; when
  the class then raises \<open>e\<close> on the buffer with the read bytes appended, the call
  raises \<open>e\<close>, and the buffer keeps the appended bytes. The same holds when the buffer
  was empty and no first call was made. When the first call gives a packet, nothing is
  read, the class is called a second time on the same whole buffer, and the frame
  returned is the result of that call.
\<close>

theorem second_decode_unguarded:
  "(buf t \<noteq> [] \<and> dissect basecls (buf t) = Inl e0
      \<and> sock_recv x False (ins t) = (Inr b, ib) \<and> b \<noteq> []
      \<and> dissect basecls (buf t @ b) = Inl e \<longrightarrow>
      SSLStreamSocket_recv cf basecls x t =
        (Inl e, t\<lparr>log := log t @ [Decode (name basecls) (buf t),
                                  Decode (name basecls) (buf t @ b)],
                  ins := ib, buf := buf t @ b\<rparr>))
   \<and> (buf t = [] \<and> sock_recv x False (ins t) = (Inr b, ib) \<and> b \<noteq> []
      \<and> dissect basecls b = Inl e \<longrightarrow>
      SSLStreamSocket_recv cf basecls x t =
        (Inl e, t\<lparr>log := log t @ [Decode (name basecls) b], ins := ib, buf := b\<rparr>))
   \<and> (buf t \<noteq> [] \<and> dissect basecls (buf t) = Inr p \<and> layers p \<noteq> [] \<longrightarrow>
      fst (SSLStreamSocket_recv cf basecls x t) =
        Inr (fst (strip_padding (padding_layer cf) p (int (length (buf t)))))
      \<and> log (snd (SSLStreamSocket_recv cf basecls x t)) =
          log t @ [Decode (name basecls) (buf t), Decode (name basecls) (buf t)]
      \<and> ins (snd (SSLStreamSocket_recv cf basecls x t)) = ins t)"
proof (intro conjI impI)
  assume a: "buf t \<noteq> [] \<and> dissect basecls (buf t) = Inl e0
      \<and> sock_recv x False (ins t) = (Inr b, ib) \<and> b \<noteq> []
      \<and> dissect basecls (buf t @ b) = Inl e"
  let ?t0 = "t\<lparr>log := log t @ [Decode (name basecls) (buf t)]\<rparr>"
  let ?t1 = "?t0\<lparr>ins := ib, buf := buf t @ b\<rparr>"
  from a have tr: "ssl_try basecls t = (None, ?t0)" by (simp add: ssl_try_fail)
  from a have rd: "ssl_read x ?t0 = (Inr (), ?t1)" by (simp add: ssl_read_def)
  from a have tk: "ssl_take cf basecls ?t1 =
      (Inl e, ?t1\<lparr>log := log ?t1 @ [Decode (name basecls) (buf ?t1)]\<rparr>)"
    by (intro ssl_take_fail) simp
  show "SSLStreamSocket_recv cf basecls x t =
        (Inl e, t\<lparr>log := log t @ [Decode (name basecls) (buf t),
                                  Decode (name basecls) (buf t @ b)],
                  ins := ib, buf := buf t @ b\<rparr>)"
    using tr rd tk by (simp add: SSLStreamSocket_recv_def ssl_fill_def truthy_def)
next
  assume a: "buf t = [] \<and> sock_recv x False (ins t) = (Inr b, ib) \<and> b \<noteq> []
      \<and> dissect basecls b = Inl e"
  let ?t1 = "t\<lparr>ins := ib, buf := b\<rparr>"
  from a have tr: "ssl_try basecls t = (None, t)" by (simp add: ssl_try_def)
  from a have rd: "ssl_read x t = (Inr (), ?t1)" by (simp add: ssl_read_def)
  from a have tk: "ssl_take cf basecls ?t1 =
      (Inl e, ?t1\<lparr>log := log ?t1 @ [Decode (name basecls) (buf ?t1)]\<rparr>)"
    by (intro ssl_take_fail) simp
  show "SSLStreamSocket_recv cf basecls x t =
        (Inl e, t\<lparr>log := log t @ [Decode (name basecls) b], ins := ib, buf := b\<rparr>)"
    using tr rd tk by (simp add: SSLStreamSocket_recv_def ssl_fill_def truthy_def)
next
  assume a: "buf t \<noteq> [] \<and> dissect basecls (buf t) = Inr p \<and> layers p \<noteq> []"
  let ?t0 = "t\<lparr>log := log t @ [Decode (name basecls) (buf t)]\<rparr>"
  from a have tr: "ssl_try basecls t = (Some p, ?t0)" by (simp add: ssl_try_ok)
  obtain p' x2 where sp: "strip_padding (padding_layer cf) p (int (length (buf t))) = (p', x2)"
    by (cases "strip_padding (padding_layer cf) p (int (length (buf t)))")
  from a sp have tk: "ssl_take cf basecls ?t0 =
      (Inr p', ?t0\<lparr>log := log ?t0 @ [Decode (name basecls) (buf t)],
                    buf := slice_from (buf t) x2\<rparr>)"
    by (simp add: ssl_take_def decode_def Let_def)
  from a tr tk have r: "SSLStreamSocket_recv cf basecls x t =
      (Inr p', ?t0\<lparr>log := log ?t0 @ [Decode (name basecls) (buf t)],
                    buf := slice_from (buf t) x2\<rparr>)"
    by (simp add: SSLStreamSocket_recv_def ssl_fill_def truthy_def)
  show "fst (SSLStreamSocket_recv cf basecls x t) =
        Inr (fst (strip_padding (padding_layer cf) p (int (length (buf t)))))"
    using r sp by simp
  show "log (snd (SSLStreamSocket_recv cf basecls x t)) =
          log t @ [Decode (name basecls) (buf t), Decode (name basecls) (buf t)]"
    using r by simp
  show "ins (snd (SSLStreamSocket_recv cf basecls x t)) = ins t"
    using r by simp
qed

theorem second_decode_unguarded_witness:
  "(buf (mk_ssl ''a'' ''b'' []) \<noteq> []
      \<and> dissect rec4_cls (buf (mk_ssl ''a'' ''b'' [])) = Inl (OtherError ''short record'')
      \<and> sock_recv 65535 False (ins (mk_ssl ''a'' ''b'' [])) = (Inr ''b'', mk_sock [] [])
      \<and> ''b'' \<noteq> []
      \<and> dissect rec4_cls (buf (mk_ssl ''a'' ''b'' []) @ ''b'') =
          Inl (OtherError ''short record''))
   \<and> SSLStreamSocket_recv conf0 rec4_cls 65535 (mk_ssl ''a'' ''b'' []) =
       (Inl (OtherError ''short record''),
        \<lparr>log = [Decode ''Rec'' ''a'', Decode ''Rec'' ''ab''], ins = mk_sock [] [],
         buf = ''ab''\<rparr>)
   \<and> (buf (mk_ssl ''abcdef'' [] []) \<noteq> []
      \<and> dissect rec4_cls (buf (mk_ssl ''abcdef'' [] [])) =
          Inr (mk_packet [mk_layer ''Rec'' ''abcd'', mk_layer ''Padding'' ''ef''])
      \<and> layers (mk_packet [mk_layer ''Rec'' ''abcd'', mk_layer ''Padding'' ''ef'']) \<noteq> [])
   \<and> fst (SSLStreamSocket_recv conf0 rec4_cls 65535 (mk_ssl ''abcdef'' [] [])) =
       Inr (mk_packet [mk_layer ''Rec'' ''abcd''])
   \<and> log (snd (SSLStreamSocket_recv conf0 rec4_cls 65535 (mk_ssl ''abcdef'' [] []))) =
       [Decode ''Rec'' ''abcdef'', Decode ''Rec'' ''abcdef'']"
proof -
  let ?t = "mk_ssl ''a'' ''b'' []"
  let ?u = "mk_ssl ''abcdef'' [] []"
  let ?q = "mk_packet [mk_layer ''Rec'' ''abcd'', mk_layer ''Padding'' ''ef'']"
  have h1: "buf ?t \<noteq> [] \<and> dissect rec4_cls (buf ?t) = Inl (OtherError ''short record'')
      \<and> sock_recv 65535 False (ins ?t) = (Inr ''b'', mk_sock [] []) \<and> ''b'' \<noteq> []
      \<and> dissect rec4_cls (buf ?t @ ''b'') = Inl (OtherError ''short record'')"
    by (simp add: mk_ssl_def mk_sock_def rec4_cls_def sock_recv_def sock_wait_def Let_def)
  have h3: "buf ?u \<noteq> [] \<and> dissect rec4_cls (buf ?u) = Inr ?q \<and> layers ?q \<noteq> []"
    by (simp add: mk_ssl_def rec4_cls_def mk_packet_def)
  from second_decode_unguarded[where cf = conf0, THEN conjunct1, rule_format, OF h1]
  have c1: "SSLStreamSocket_recv conf0 rec4_cls 65535 ?t =
       (Inl (OtherError ''short record''),
        \<lparr>log = [Decode ''Rec'' ''a'', Decode ''Rec'' ''ab''], ins = mk_sock [] [],
         buf = ''ab''\<rparr>)"
    by (simp add: mk_ssl_def rec4_cls_def)
  from second_decode_unguarded[where cf = conf0 and x = 65535, THEN conjunct2, THEN conjunct2,
      rule_format, OF h3]
  have c3: "fst (SSLStreamSocket_recv conf0 rec4_cls 65535 ?u) =
        Inr (mk_packet [mk_layer ''Rec'' ''abcd''])
      \<and> log (snd (SSLStreamSocket_recv conf0 rec4_cls 65535 ?u)) =
        [Decode ''Rec'' ''abcdef'', Decode ''Rec'' ''abcdef'']"
    by (simp add: mk_ssl_def rec4_cls_def strip_padding_def conf0_def mk_packet_def
        mk_layer_def)
  from h1 c1 h3 c3 show ?thesis by blast
qed

section \<open>\<^verbatim>\<open>L3RawSocket.recv\<close>\<close>

text \<open>
  Claim C6. A read whose address marks the frame as outgoing makes
  \<^verbatim>\<open>L3RawSocket.recv\<close> return \<^verbatim>\<open>None\<close>: no exception, and the state with its trace is
  unchanged, so no class was called and nothing was logged or warned.
\<close>

theorem outgoing_is_null:
  "pkttype sa_ll = PACKET_OUTGOING \<Longrightarrow>
     L3RawSocket_recv cf (Inr (pkt, sa_ll)) ts s = (Inr None, s)"
  by (simp add: L3RawSocket_recv_def)

theorem outgoing_is_null_witness:
  "pkttype (mk_addr 2048 4 1) = PACKET_OUTGOING
   \<and> L3RawSocket_recv conf0 (Inr (''xyz'', mk_addr 2048 4 1)) 7 mk_l3 = (Inr None, mk_l3)"
proof -
  have h: "pkttype (mk_addr 2048 4 1) = PACKET_OUTGOING"
    by (simp add: mk_addr_def PACKET_OUTGOING_def)
  from outgoing_is_null[OF h] h show ?thesis by simp
qed

lemma l3_dissect_ok:
  "dissect cls raw = Inr p \<Longrightarrow>
     l3_dissect cf cls raw evs = (Inr p, evs @ [Decode (name cls) raw])"
  by (simp add: l3_dissect_def decode_def)

lemma l3_dissect_warnings:
  "filter is_warning (snd (l3_dissect cf cls raw evs)) = filter is_warning evs"
  by (cases "dissect cls raw") (simp_all add: l3_dissect_def decode_def is_warning_def)

lemma l3_recv_log:
  assumes "pkttype sa \<noteq> PACKET_OUTGOING"
    and "l3_dispatch cf sa (log s) = (cls, lvl, evs)"
  shows "log (snd (L3RawSocket_recv cf (Inr (raw, sa)) ts s)) = snd (l3_dissect cf cls raw evs)"
  using assms
  by (cases "l3_dissect cf cls raw evs"; cases "fst (l3_dissect cf cls raw evs)")
     (simp_all add: L3RawSocket_recv_def Let_def)

text \<open>
  Claim C4. For a read that is not outgoing: when the link type \<^verbatim>\<open>sa_ll[3]\<close> is in
  \<^verbatim>\<open>conf.l2types\<close>, that class decodes the bytes and the payload of the decoded frame
  is returned, whose length is the raw length minus the length of the link layer when
  the class accounts for every byte; when it is not and the protocol \<^verbatim>\<open>sa_ll[1]\<close> is
  in \<^verbatim>\<open>conf.l3types\<close>, that class decodes the bytes and the frame is returned as it
  is; in both cases the call adds no warning to the trace. Otherwise
  \<^verbatim>\<open>conf.default_l2\<close> decodes the bytes and the call adds exactly one warning, which
  carries the interface, the protocol, the link type and the name of the default class.
\<close>

theorem l3_dispatch_rule:
  assumes inc: "pkttype sa \<noteq> PACKET_OUTGOING"
  shows "(l2types cf (hatype sa) = Some c \<and> dissect c raw = Inr p \<longrightarrow>
            L3RawSocket_recv cf (Inr (raw, sa)) ts s =
              (Inr (Some ((payload p)\<lparr>time := Some ts\<rparr>)),
               s\<lparr>log := log s @ [Decode (name c) raw]\<rparr>)
          \<and> (str_pkt p = raw \<and> layers p \<noteq> [] \<longrightarrow>
               length (str_pkt ((payload p)\<lparr>time := Some ts\<rparr>)) =
                 length raw - length (load (hd (layers p)))))
       \<and> (l2types cf (hatype sa) = None \<and> l3types cf (proto sa) = Some c
            \<and> dissect c raw = Inr p \<longrightarrow>
            L3RawSocket_recv cf (Inr (raw, sa)) ts s =
              (Inr (Some (p\<lparr>time := Some ts\<rparr>)), s\<lparr>log := log s @ [Decode (name c) raw]\<rparr>))
       \<and> (l2types cf (hatype sa) \<noteq> None \<or> l3types cf (proto sa) \<noteq> None \<longrightarrow>
            filter is_warning (log (snd (L3RawSocket_recv cf (Inr (raw, sa)) ts s))) =
              filter is_warning (log s))
       \<and> (l2types cf (hatype sa) = None \<and> l3types cf (proto sa) = None \<longrightarrow>
            filter is_warning (log (snd (L3RawSocket_recv cf (Inr (raw, sa)) ts s))) =
              filter is_warning (log s) @
                [Warning (ifname sa) (proto sa) (hatype sa) (name (default_l2 cf))]
          \<and> (dissect (default_l2 cf) raw = Inr p \<longrightarrow>
               L3RawSocket_recv cf (Inr (raw, sa)) ts s =
                 (Inr (Some (p\<lparr>time := Some ts\<rparr>)),
                  s\<lparr>log := log s @
                     [Warning (ifname sa) (proto sa) (hatype sa) (name (default_l2 cf)),
                      Decode (name (default_l2 cf)) raw]\<rparr>)))"
proof (intro conjI impI)
  assume a: "l2types cf (hatype sa) = Some c \<and> dissect c raw = Inr p"
  then have d: "l3_dispatch cf sa (log s) = (c, 2, log s)" by (simp add: l3_dispatch_def)
  from a inc d show "L3RawSocket_recv cf (Inr (raw, sa)) ts s =
              (Inr (Some ((payload p)\<lparr>time := Some ts\<rparr>)),
               s\<lparr>log := log s @ [Decode (name c) raw]\<rparr>)"
    by (simp add: L3RawSocket_recv_def l3_dissect_ok)
next
  assume "str_pkt p = raw \<and> layers p \<noteq> []"
  then obtain h t where l: "layers p = h # t" and r: "raw = wire (layers p)"
    by (cases "layers p") (auto simp: str_pkt_def)
  then show "length (str_pkt ((payload p)\<lparr>time := Some ts\<rparr>)) =
                 length raw - length (load (hd (layers p)))"
    by (simp add: str_pkt_def payload_def wire_def)
next
  assume a: "l2types cf (hatype sa) = None \<and> l3types cf (proto sa) = Some c
            \<and> dissect c raw = Inr p"
  then have d: "l3_dispatch cf sa (log s) = (c, 3, log s)" by (simp add: l3_dispatch_def)
  from a inc d show "L3RawSocket_recv cf (Inr (raw, sa)) ts s =
              (Inr (Some (p\<lparr>time := Some ts\<rparr>)), s\<lparr>log := log s @ [Decode (name c) raw]\<rparr>)"
    by (simp add: L3RawSocket_recv_def l3_dissect_ok)
next
  assume a: "l2types cf (hatype sa) \<noteq> None \<or> l3types cf (proto sa) \<noteq> None"
  then have "\<exists>cls lvl. l3_dispatch cf sa (log s) = (cls, lvl, log s)"
    by (cases "l2types cf (hatype sa)"; cases "l3types cf (proto sa)")
       (simp_all add: l3_dispatch_def)
  then obtain cls lvl where d: "l3_dispatch cf sa (log s) = (cls, lvl, log s)" by blast
  show "filter is_warning (log (snd (L3RawSocket_recv cf (Inr (raw, sa)) ts s))) =
              filter is_warning (log s)"
    by (simp add: l3_recv_log[OF inc d] l3_dissect_warnings)
next
  assume a: "l2types cf (hatype sa) = None \<and> l3types cf (proto sa) = None"
  let ?w = "Warning (ifname sa) (proto sa) (hatype sa) (name (default_l2 cf))"
  from a have d: "l3_dispatch cf sa (log s) = (default_l2 cf, 3, log s @ [?w])"
    by (simp add: l3_dispatch_def)
  show "filter is_warning (log (snd (L3RawSocket_recv cf (Inr (raw, sa)) ts s))) =
              filter is_warning (log s) @ [?w]"
    by (simp add: l3_recv_log[OF inc d] l3_dissect_warnings is_warning_def)
  assume "dissect (default_l2 cf) raw = Inr p"
  with inc d show "L3RawSocket_recv cf (Inr (raw, sa)) ts s =
                 (Inr (Some (p\<lparr>time := Some ts\<rparr>)),
                  s\<lparr>log := log s @ [?w, Decode (name (default_l2 cf)) raw]\<rparr>)"
    by (simp add: L3RawSocket_recv_def l3_dissect_ok)
qed

theorem l3_dispatch_rule_witness:
  "pkttype (mk_addr 2048 0 1) \<noteq> PACKET_OUTGOING
   \<and> (l2types conf0 (hatype (mk_addr 2048 0 1)) = Some link_cls
      \<and> dissect link_cls ''hhab'' =
          Inr (mk_packet [mk_layer ''Link'' ''hh'', mk_layer ''Raw'' ''ab'']))
   \<and> L3RawSocket_recv conf0 (Inr (''hhab'', mk_addr 2048 0 1)) 7 mk_l3 =
       (Inr (Some \<lparr>layers = [mk_layer ''Raw'' ''ab''], time = Some 7, sent_time = None\<rparr>),
        \<lparr>log = [Decode ''Link'' ''hhab''], sent = []\<rparr>)
   \<and> (l2types conf0 (hatype (mk_addr 2048 0 9)) = None
      \<and> l3types conf0 (proto (mk_addr 2048 0 9)) = Some net_cls
      \<and> dissect net_cls ''hhab'' =
          Inr (mk_packet [\<lparr>lclass = ''Net'', load = ''hhab'', dst = Some ''10.0.0.1''\<rparr>]))
   \<and> L3RawSocket_recv conf0 (Inr (''hhab'', mk_addr 2048 0 9)) 7 mk_l3 =
       (Inr (Some \<lparr>layers = [\<lparr>lclass = ''Net'', load = ''hhab'', dst = Some ''10.0.0.1''\<rparr>],
                   time = Some 7, sent_time = None\<rparr>),
        \<lparr>log = [Decode ''Net'' ''hhab''], sent = []\<rparr>)
   \<and> (l2types conf0 (hatype (mk_addr 5 0 9)) = None
      \<and> l3types conf0 (proto (mk_addr 5 0 9)) = None)
   \<and> filter is_warning (log (snd (L3RawSocket_recv conf0 (Inr (''hhab'', mk_addr 5 0 9)) 7 mk_l3)))
       = [Warning ''eth0'' 5 9 ''Link'']"
proof -
  let ?p = "mk_packet [mk_layer ''Link'' ''hh'', mk_layer ''Raw'' ''ab'']"
  let ?n = "mk_packet [\<lparr>lclass = ''Net'', load = ''hhab'', dst = Some ''10.0.0.1''\<rparr>]"
  have i1: "pkttype (mk_addr 2048 0 1) \<noteq> PACKET_OUTGOING"
    and i2: "pkttype (mk_addr 2048 0 9) \<noteq> PACKET_OUTGOING"
    and i3: "pkttype (mk_addr 5 0 9) \<noteq> PACKET_OUTGOING"
    by (simp_all add: mk_addr_def PACKET_OUTGOING_def)
  have h1: "l2types conf0 (hatype (mk_addr 2048 0 1)) = Some link_cls
      \<and> dissect link_cls ''hhab'' = Inr ?p"
    by (simp add: conf0_def mk_addr_def link_cls_def)
  have h2: "l2types conf0 (hatype (mk_addr 2048 0 9)) = None
      \<and> l3types conf0 (proto (mk_addr 2048 0 9)) = Some net_cls
      \<and> dissect net_cls ''hhab'' = Inr ?n"
    by (simp add: conf0_def mk_addr_def net_cls_def)
  have h3: "l2types conf0 (hatype (mk_addr 5 0 9)) = None
      \<and> l3types conf0 (proto (mk_addr 5 0 9)) = None"
    by (simp add: conf0_def mk_addr_def)
  from l3_dispatch_rule[OF i1, where ts = 7 and s = mk_l3, THEN conjunct1, rule_format, OF h1,
      THEN conjunct1]
  have c1: "L3RawSocket_recv conf0 (Inr (''hhab'', mk_addr 2048 0 1)) 7 mk_l3 =
       (Inr (Some \<lparr>layers = [mk_layer ''Raw'' ''ab''], time = Some 7, sent_time = None\<rparr>),
        \<lparr>log = [Decode ''Link'' ''hhab''], sent = []\<rparr>)"
    by (simp add: payload_def mk_packet_def mk_l3_def link_cls_def)
  from l3_dispatch_rule[OF i2, where ts = 7 and s = mk_l3, THEN conjunct2, THEN conjunct1,
      rule_format, OF h2]
  have c2: "L3RawSocket_recv conf0 (Inr (''hhab'', mk_addr 2048 0 9)) 7 mk_l3 =
       (Inr (Some \<lparr>layers = [\<lparr>lclass = ''Net'', load = ''hhab'', dst = Some ''10.0.0.1''\<rparr>],
                   time = Some 7, sent_time = None\<rparr>),
        \<lparr>log = [Decode ''Net'' ''hhab''], sent = []\<rparr>)"
    by (simp add: mk_packet_def mk_l3_def net_cls_def)
  from l3_dispatch_rule[OF i3, where ts = 7 and s = mk_l3 and raw = "''hhab''", THEN conjunct2,
      THEN conjunct2, THEN conjunct2, rule_format, OF h3, THEN conjunct1]
  have c3: "filter is_warning
        (log (snd (L3RawSocket_recv conf0 (Inr (''hhab'', mk_addr 5 0 9)) 7 mk_l3))) =
        [Warning ''eth0'' 5 9 ''Link'']"
    by (simp add: mk_l3_def mk_addr_def conf0_def link_cls_def)
  from i1 h1 c1 h2 c2 h3 c3 show ?thesis by blast
qed

text \<open>
  What lines 90--97 do with an exception of the class: \<^verbatim>\<open>KeyboardInterrupt\<close> is
  raised again in both modes; any other exception is raised again when
  \<^verbatim>\<open>conf.debug_dissector\<close> is set; otherwise \<^verbatim>\<open>conf.raw_layer\<close> decodes the bytes, and
  the call returns that frame at level 3 and the payload of that frame at level 2.
\<close>

lemma interrupt_propagates:
  "pkttype sa \<noteq> PACKET_OUTGOING \<Longrightarrow> l3_dispatch cf sa (log s) = (cls, lvl, evs) \<Longrightarrow>
   dissect cls raw = Inl KeyboardInterrupt \<Longrightarrow>
     fst (L3RawSocket_recv cf (Inr (raw, sa)) ts s) = Inl KeyboardInterrupt"
  by (simp add: L3RawSocket_recv_def l3_dissect_def decode_def)

lemma strict_failure_propagates:
  "pkttype sa \<noteq> PACKET_OUTGOING \<Longrightarrow> l3_dispatch cf sa (log s) = (cls, lvl, evs) \<Longrightarrow>
   dissect cls raw = Inl e \<Longrightarrow> debug_dissector cf \<Longrightarrow>
     fst (L3RawSocket_recv cf (Inr (raw, sa)) ts s) = Inl e"
  by (simp add: L3RawSocket_recv_def l3_dissect_def decode_def)

lemma lenient_failure_l3:
  "pkttype sa \<noteq> PACKET_OUTGOING \<Longrightarrow> l3_dispatch cf sa (log s) = (cls, 3, evs) \<Longrightarrow>
   dissect cls raw = Inl e \<Longrightarrow> e \<noteq> KeyboardInterrupt \<Longrightarrow> \<not> debug_dissector cf \<Longrightarrow>
   dissect (raw_layer cf) raw = Inr r \<Longrightarrow>
     fst (L3RawSocket_recv cf (Inr (raw, sa)) ts s) = Inr (Some (r\<lparr>time := Some ts\<rparr>))"
  by (simp add: L3RawSocket_recv_def l3_dissect_def decode_def)

lemma lenient_failure_l2:
  "pkttype sa \<noteq> PACKET_OUTGOING \<Longrightarrow> l3_dispatch cf sa (log s) = (cls, 2, evs) \<Longrightarrow>
   dissect cls raw = Inl e \<Longrightarrow> e \<noteq> KeyboardInterrupt \<Longrightarrow> \<not> debug_dissector cf \<Longrightarrow>
   dissect (raw_layer cf) raw = Inr r \<Longrightarrow>
     fst (L3RawSocket_recv cf (Inr (raw, sa)) ts s) = Inr (Some ((payload r)\<lparr>time := Some ts\<rparr>))"
  by (simp add: L3RawSocket_recv_def l3_dissect_def decode_def)

text \<open>
  Claim C7, where the code departs from it. The link type is registered, its class
  raises on the one byte read, and \<^verbatim>\<open>conf.debug_dissector\<close> is off. Line 97 builds the
  opaque frame \<^verbatim>\<open>Raw('x')\<close>, and line 99 then replaces it by its payload, so the call
  returns the empty \<^verbatim>\<open>NoPayload\<close> object and the byte read is lost.
\<close>

theorem lenient_l2_failure_loses_frame:
  "dissect link_cls ''x'' = Inl (OtherError ''truncated'')
   \<and> L3RawSocket_recv conf0 (Inr (''x'', mk_addr 2048 0 1)) 7 mk_l3 =
       (Inr (Some \<lparr>layers = [], time = Some 7, sent_time = None\<rparr>),
        \<lparr>log = [Decode ''Link'' ''x'', Decode ''Raw'' ''x''], sent = []\<rparr>)
   \<and> dissect (raw_layer conf0) ''x'' = Inr (mk_packet [mk_layer ''Raw'' ''x''])"
  by (simp add: L3RawSocket_recv_def l3_dispatch_def l3_dissect_def decode_def conf0_def
      link_cls_def raw_cls_def mk_addr_def mk_l3_def PACKET_OUTGOING_def payload_def
      mk_packet_def mk_layer_def)

section \<open>\<^verbatim>\<open>L3RawSocket.send\<close>\<close>

text \<open>
  What the method does for a frame that has a destination field \<open>d\<close>: it stamps the
  frame with the send time and, when \<^verbatim>\<open>sendto\<close> succeeds, has written the bytes of the
  frame to \<^verbatim>\<open>outs\<close> with the address \<open>(d, 0)\<close>; when \<^verbatim>\<open>sendto\<close> raises a
  \<^verbatim>\<open>socket.error\<close> and the logging call returns, the error is logged, nothing is raised
  and the call returns normally.
\<close>

lemma send_rule:
  assumes d: "getattr_dst (layers x) = Inr d"
  shows "(err = None \<longrightarrow>
            L3RawSocket_send now err lg x s =
              (Inr (), x\<lparr>sent_time := Some now\<rparr>, s\<lparr>sent := sent s @ [(str_pkt x, d, 0)]\<rparr>))
       \<and> (err = Some (SocketError n msg) \<and> lg = None \<longrightarrow>
            L3RawSocket_send now err lg x s =
              (Inr (), x\<lparr>sent_time := Some now\<rparr>,
               s\<lparr>log := log s @ [LogError (SocketError n msg)]\<rparr>))
       \<and> (err = Some (SocketError n msg) \<and> lg = Some e \<longrightarrow>
            L3RawSocket_send now err lg x s = (Inl e, x\<lparr>sent_time := Some now\<rparr>, s))"
  using d by (simp add: L3RawSocket_send_def Let_def)

text \<open>
  Claim C9, where the code departs from it. \<^verbatim>\<open>sendto\<close> raises a \<^verbatim>\<open>socket.error\<close>, the
  handler of line 110 catches it and calls \<^verbatim>\<open>log_runtime.error(msg)\<close> with the
  exception object, and the logging call raises a \<^verbatim>\<open>TypeError\<close>: the handler has no
  guard of its own, so the \<^verbatim>\<open>TypeError\<close> leaves \<^verbatim>\<open>send\<close> and reaches the caller, and
  nothing is logged.
\<close>

theorem send_raises_when_logging_raises:
  "getattr_dst (layers (mk_packet [\<lparr>lclass = ''Net'', load = ''data'', dst = Some ''10.0.0.1''\<rparr>]))
     = Inr ''10.0.0.1''
   \<and> L3RawSocket_send 3 (Some (SocketError 101 ''Network is unreachable''))
        (Some (TypeError ''cannot concatenate str and error objects''))
        (mk_packet [\<lparr>lclass = ''Net'', load = ''data'', dst = Some ''10.0.0.1''\<rparr>]) mk_l3 =
       (Inl (TypeError ''cannot concatenate str and error objects''),
        \<lparr>layers = [\<lparr>lclass = ''Net'', load = ''data'', dst = Some ''10.0.0.1''\<rparr>],
         time = None, sent_time = Some 3\<rparr>,
        \<lparr>log = [], sent = []\<rparr>)
   \<and> L3RawSocket_send 3 (Some (SocketError 101 ''Network is unreachable'')) None
        (mk_packet [\<lparr>lclass = ''Net'', load = ''data'', dst = Some ''10.0.0.1''\<rparr>]) mk_l3 =
       (Inr (),
        \<lparr>layers = [\<lparr>lclass = ''Net'', load = ''data'', dst = Some ''10.0.0.1''\<rparr>],
         time = None, sent_time = Some 3\<rparr>,
        \<lparr>log = [LogError (SocketError 101 ''Network is unreachable'')], sent = []\<rparr>)"
  by (simp add: L3RawSocket_send_def Let_def mk_packet_def mk_l3_def)

section \<open>\<^verbatim>\<open>SuperSocket.close\<close> on whole and on partial handles\<close>

lemma close_if_live_closes:
  "closes (close_if_live ch w) =
     closes w @ (case ch of None \<Rightarrow> [] | Some c \<Rightarrow> if fd w c \<noteq> - 1 then [c] else [])"
  by (simp add: close_if_live_def chan_close_def fileno_def split: option.splits)

lemma close_if_live_fd:
  "fd (close_if_live ch w) c = (if ch = Some c then - 1 else fd w c)"
  by (auto simp: close_if_live_def chan_close_def fileno_def split: option.splits)

lemma close_open:
  assumes "\<not> closed h" and "h_ins h \<noteq> Unset" and "h_outs h \<noteq> Unset"
  shows "\<exists>w'. SuperSocket_close h w = (Inr (), h\<lparr>closed := True\<rparr>, w')
           \<and> closes w' = closes w @ closed_by h w"
  using assms
  by (cases "h_ins h"; cases "h_outs h")
     (auto simp: SuperSocket_close_def Let_def getattr_def closed_by_def close_if_live_closes
        close_if_live_fd)

lemma close_closed: "closed h \<Longrightarrow> SuperSocket_close h w = (Inr (), h, w)"
  by (simp add: SuperSocket_close_def)

lemma close_n_closed: "closed h \<Longrightarrow> close_n n h w = (replicate n (Inr ()), h, w)"
  by (induction n) (simp_all add: close_closed)

lemma distinct_closed_by: "distinct (closed_by h w)"
  by (auto simp: closed_by_def split: attr.splits)

text \<open>
  On a handle whose two attributes are assigned (each \<^verbatim>\<open>None\<close>, a closed channel or a
  live one), any number of invocations raise nothing and leave the handle closed;
  together they call the \<^verbatim>\<open>close()\<close> of the channels exactly as the first invocation is
  described to, each channel at most once, and only channels that were live. On a closed
  handle every invocation returns at once.
\<close>

lemma close_idempotent_when_assigned:
  "(\<not> closed h \<and> h_ins h \<noteq> Unset \<and> h_outs h \<noteq> Unset \<longrightarrow>
      fst (close_n (Suc n) h w) = replicate (Suc n) (Inr ())
    \<and> closed (fst (snd (close_n (Suc n) h w)))
    \<and> closes (snd (snd (close_n (Suc n) h w))) = closes w @ closed_by h w
    \<and> distinct (closed_by h w)
    \<and> (\<forall>c \<in> set (closed_by h w). fd w c \<noteq> - 1))
   \<and> (closed h \<longrightarrow> close_n n h w = (replicate n (Inr ()), h, w))"
proof (intro conjI impI)
  assume a: "\<not> closed h \<and> h_ins h \<noteq> Unset \<and> h_outs h \<noteq> Unset"
  then have o: "\<not> closed h" and i: "h_ins h \<noteq> Unset" and u: "h_outs h \<noteq> Unset" by auto
  from close_open[OF o i u] obtain w' where
    c: "SuperSocket_close h w = (Inr (), h\<lparr>closed := True\<rparr>, w')"
    and cl: "closes w' = closes w @ closed_by h w" by blast
  have r: "close_n (Suc n) h w = (Inr () # replicate n (Inr ()), h\<lparr>closed := True\<rparr>, w')"
    using c close_n_closed[of "h\<lparr>closed := True\<rparr>" n w'] by simp
  show "fst (close_n (Suc n) h w) = replicate (Suc n) (Inr ())" using r by simp
  show "closed (fst (snd (close_n (Suc n) h w)))" using r by simp
  show "closes (snd (snd (close_n (Suc n) h w))) = closes w @ closed_by h w" using r cl by simp
  show "distinct (closed_by h w)" by (rule distinct_closed_by)
  show "\<forall>c \<in> set (closed_by h w). fd w c \<noteq> - 1"
    by (auto simp: closed_by_def split: attr.splits if_splits)
next
  assume "closed h"
  then show "close_n n h w = (replicate n (Inr ()), h, w)" by (rule close_n_closed)
qed

lemma close_idempotent_example:
  "close_n 2 \<lparr>h_ins = Chan 0, h_outs = Chan 1, closed = False\<rparr>
        \<lparr>fd = (\<lambda>c. if c = 0 then 5 else - 1), closes = []\<rparr> =
       ([Inr (), Inr ()], \<lparr>h_ins = Chan 0, h_outs = Chan 1, closed = True\<rparr>,
        \<lparr>fd = (\<lambda>c. - 1), closes = [0]\<rparr>)
   \<and> closes (snd (snd (close_n 3 \<lparr>h_ins = Chan 2, h_outs = Chan 2, closed = False\<rparr>
        \<lparr>fd = (\<lambda>c. 7), closes = []\<rparr>))) = [2]
   \<and> close_n 2 \<lparr>h_ins = Chan 0, h_outs = PyNone, closed = False\<rparr>
        \<lparr>fd = (\<lambda>c. - 1), closes = []\<rparr> =
       ([Inr (), Inr ()], \<lparr>h_ins = Chan 0, h_outs = PyNone, closed = True\<rparr>,
        \<lparr>fd = (\<lambda>c. - 1), closes = []\<rparr>)"
proof -
  let ?k = "\<lparr>h_ins = Chan 2, h_outs = Chan 2, closed = False\<rparr>"
  let ?v = "\<lparr>fd = (\<lambda>c. 7), closes = []\<rparr>"
  have k: "\<not> closed ?k \<and> h_ins ?k \<noteq> Unset \<and> h_outs ?k \<noteq> Unset" by simp
  have c1: "close_n 2 \<lparr>h_ins = Chan 0, h_outs = Chan 1, closed = False\<rparr>
        \<lparr>fd = (\<lambda>c. if c = 0 then 5 else - 1), closes = []\<rparr> =
       ([Inr (), Inr ()], \<lparr>h_ins = Chan 0, h_outs = Chan 1, closed = True\<rparr>,
        \<lparr>fd = (\<lambda>c. - 1), closes = [0]\<rparr>)"
    by (simp add: numeral_2_eq_2 SuperSocket_close_def Let_def getattr_def close_if_live_def
        fileno_def chan_close_def fun_eq_iff)
  from close_idempotent_when_assigned[where h = ?k and w = ?v and n = 2, THEN conjunct1,
      rule_format, OF k]
  have c2: "closes (snd (snd (close_n 3 ?k ?v))) = [2]"
    by (simp add: closed_by_def numeral_3_eq_3)
  have c3: "close_n 2 \<lparr>h_ins = Chan 0, h_outs = PyNone, closed = False\<rparr>
        \<lparr>fd = (\<lambda>c. - 1), closes = []\<rparr> =
       ([Inr (), Inr ()], \<lparr>h_ins = Chan 0, h_outs = PyNone, closed = True\<rparr>,
        \<lparr>fd = (\<lambda>c. - 1), closes = []\<rparr>)"
    by (simp add: numeral_2_eq_2 SuperSocket_close_def Let_def getattr_def close_if_live_def
        fileno_def)
  from c1 c2 c3 show ?thesis by blast
qed

text \<open>
  Claim C5, where the code departs from it. The constructor of \<^verbatim>\<open>L3RawSocket\<close> has
  assigned \<^verbatim>\<open>outs\<close> (line 70) and then fails to create the packet socket (line 72), so
  \<^verbatim>\<open>ins\<close> is never assigned. On this handle the first \<^verbatim>\<open>close()\<close> raises
  \<^verbatim>\<open>AttributeError\<close> at line 48, after line 47 has set \<^verbatim>\<open>closed\<close>; the second
  invocation therefore returns at once, and the live output channel is never closed.
\<close>

theorem close_raises_on_partial_handle:
  "L3RawSocket_init (Inr 1) None (Inl (SocketError 1 ''Operation not permitted'')) None =
     (Inl (SocketError 1 ''Operation not permitted''),
      \<lparr>h_ins = Unset, h_outs = Chan 1, closed = False\<rparr>)
   \<and> SuperSocket_close \<lparr>h_ins = Unset, h_outs = Chan 1, closed = False\<rparr>
        \<lparr>fd = (\<lambda>c. 5), closes = []\<rparr> =
       (Inl (AttributeError ''ins''), \<lparr>h_ins = Unset, h_outs = Chan 1, closed = True\<rparr>,
        \<lparr>fd = (\<lambda>c. 5), closes = []\<rparr>)
   \<and> close_n 2 \<lparr>h_ins = Unset, h_outs = Chan 1, closed = False\<rparr>
        \<lparr>fd = (\<lambda>c. 5), closes = []\<rparr> =
       ([Inl (AttributeError ''ins''), Inr ()],
        \<lparr>h_ins = Unset, h_outs = Chan 1, closed = True\<rparr>,
        \<lparr>fd = (\<lambda>c. 5), closes = []\<rparr>)"
  by (simp add: L3RawSocket_init_def new_handle_def numeral_2_eq_2 SuperSocket_close_def
      Let_def getattr_def)

section \<open>Sequences of frames over \<^verbatim>\<open>StreamSocket\<close>\<close>

text \<open>
  Claim C3, as stated, fails. The class frames two-byte strings; the frames \<^verbatim>\<open>'ab'\<close>
  and \<^verbatim>\<open>'cd'\<close> arrive in the reads \<^verbatim>\<open>'a'\<close> and \<^verbatim>\<open>'bcd'\<close>. The first call peeks
  \<^verbatim>\<open>'a'\<close>, decodes it and consumes it; the second call returns the frame \<^verbatim>\<open>'bc'\<close>, and
  one byte is left over. Decoded whole, the two frames are other packets.
\<close>

theorem split_frame_is_misread:
  "fst (recv_n conf0 pair_cls 1500 [0, 0] (mk_stream [] [''a'', ''bcd''])) =
     [Inr (mk_packet [mk_layer ''Pair'' ''a'']), Inr (mk_packet [mk_layer ''Pair'' ''bc''])]
   \<and> pending (ins (snd (recv_n conf0 pair_cls 1500 [0, 0] (mk_stream [] [''a'', ''bcd''])))) = ''d''
   \<and> dissect pair_cls ''ab'' = Inr (mk_packet [mk_layer ''Pair'' ''ab''])
   \<and> dissect pair_cls ''cd'' = Inr (mk_packet [mk_layer ''Pair'' ''cd''])"
  by (simp add: StreamSocket_recv_def sock_recv_def sock_wait_def arrive_def mk_stream_def
      mk_sock_def Let_def pair_cls_def decode_def strip_padding_def conf0_def mk_packet_def
      mk_layer_def pending_def)

subsection \<open>Reads that hold whole frames\<close>

lemma seg_bytes_append: "seg_bytes (a @ b) = seg_bytes a @ seg_bytes b"
  by (simp add: seg_bytes_def)

lemma seg_bytes_concat: "seg_bytes (concat ss) = concat (map seg_bytes ss)"
  by (induction ss) (simp_all add: seg_bytes_append, simp add: seg_bytes_def)

lemma drop_empty_segs:
  assumes "\<forall>fp \<in> set (concat segs). fst fp \<noteq> []" and "concat segs = fp # rest"
  shows "\<exists>fs1 segs1. dropWhile (\<lambda>c. c = []) (map seg_bytes segs) =
            seg_bytes (fp # fs1) # map seg_bytes segs1 \<and> fs1 @ concat segs1 = rest"
  using assms
proof (induction segs)
  case Nil
  then show ?case by simp
next
  case (Cons seg segs)
  show ?case
  proof (cases seg)
    case Nil
    with Cons show ?thesis by (simp add: seg_bytes_def)
  next
    case (Cons a fs1)
    with Cons.prems have "a = fp" and r: "fs1 @ concat segs = rest" and "fst a \<noteq> []" by auto
    then have "seg_bytes seg \<noteq> []" using Cons by (simp add: seg_bytes_def)
    with Cons r \<open>a = fp\<close> show ?thesis by auto
  qed
qed

lemma wait_frames:
  assumes ne: "\<forall>fp \<in> set (fs @ concat segs). fst fp \<noteq> []"
    and fr: "fs @ concat segs = fp # rest"
    and rb: "rcvbuf i = seg_bytes fs" and fl: "inflight i = map seg_bytes segs"
  shows "\<exists>fs1 segs1. rcvbuf (sock_wait i) = seg_bytes (fp # fs1)
           \<and> inflight (sock_wait i) = map seg_bytes segs1 \<and> fs1 @ concat segs1 = rest"
proof (cases fs)
  case Nil
  with fr have c: "concat segs = fp # rest" by simp
  from ne have n: "\<forall>fp \<in> set (concat segs). fst fp \<noteq> []" by simp
  from drop_empty_segs[OF n c] obtain fs1 segs1 where
    d: "dropWhile (\<lambda>c. c = []) (map seg_bytes segs) = seg_bytes (fp # fs1) # map seg_bytes segs1"
    and r: "fs1 @ concat segs1 = rest" by blast
  from Nil rb have "rcvbuf i = []" by (simp add: seg_bytes_def)
  with d fl have "rcvbuf (sock_wait i) = seg_bytes (fp # fs1)
      \<and> inflight (sock_wait i) = map seg_bytes segs1"
    by (simp add: sock_wait_def del: dropWhile_eq_Nil_conv)
  with r show ?thesis by blast
next
  case (Cons a fs1)
  with fr have a: "a = fp" and r: "fs1 @ concat segs = rest" by auto
  from ne Cons a have "fst fp \<noteq> []" by simp
  with rb Cons a have "rcvbuf i \<noteq> []" by (simp add: seg_bytes_def)
  then have "sock_wait i = i" by (rule wait_idem)
  with rb fl Cons a r show ?thesis by auto
qed

lemma frame_decode:
  assumes fa: "frames_as cf basecls f p"
  shows "dissect basecls (f @ r) = Inr q \<Longrightarrow>
           padding_len (padding_layer cf) q = length r
         \<and> fst (strip_padding (padding_layer cf) q n) = p"
proof -
  assume d: "dissect basecls (f @ r) = Inr q"
  from fa have np: "getlayer (padding_layer cf) (layers p) = None" and lp: "layers p \<noteq> []"
    and q: "q = (if r = [] then p else p\<lparr>layers := layers p @ [pad_layer cf r]\<rparr>)"
    using d by (auto simp: frames_as_def)
  show ?thesis
  proof (cases "r = []")
    case True
    with q np show ?thesis by (simp add: padding_len_def strip_padding_def)
  next
    case False
    have g: "getlayer (padding_layer cf) (layers p @ pad_layer cf r # []) =
        Some (layers p, pad_layer cf r # [])"
      by (rule getlayer_append_fresh[OF np]) (simp add: pad_layer_def)
    with False q lp show ?thesis
      by (simp add: padding_len_def strip_padding_def wire_def pad_layer_def)
  qed
qed

lemma recv_one:
  assumes ok: "\<forall>(f, p) \<in> set (fs @ concat segs). frames_as cf basecls f p \<and> int (length f) \<le> x"
    and fr: "fs @ concat segs = (f, p) # rest"
    and rb: "rcvbuf (ins s) = seg_bytes fs" and fl: "inflight (ins s) = map seg_bytes segs"
  shows "\<exists>s' fs' segs'. StreamSocket_recv cf basecls x s = (Inr p, s')
           \<and> rcvbuf (ins s') = seg_bytes fs' \<and> inflight (ins s') = map seg_bytes segs'
           \<and> fs' @ concat segs' = rest"
proof -
  from ok fr have fa: "frames_as cf basecls f p" and lx: "int (length f) \<le> x"
    by (metis (mono_tags, lifting) case_prodD list.set_intros(1))+
  then have fne: "f \<noteq> []" by (simp add: frames_as_def)
  have ne: "\<forall>fp \<in> set (fs @ concat segs). fst fp \<noteq> []"
  proof
    fix fp assume "fp \<in> set (fs @ concat segs)"
    with ok have "case fp of (f, p) \<Rightarrow> frames_as cf basecls f p \<and> int (length f) \<le> x"
      by blast
    then show "fst fp \<noteq> []" by (cases fp) (simp add: frames_as_def)
  qed
  from wait_frames[OF ne fr rb fl] obtain fs1 segs1 where
    w1: "rcvbuf (sock_wait (ins s)) = seg_bytes ((f, p) # fs1)"
    and w2: "inflight (sock_wait (ins s)) = map seg_bytes segs1"
    and w3: "fs1 @ concat segs1 = rest" by blast
  let ?ia = "sock_wait (ins s)"
  let ?R = "seg_bytes fs1"
  let ?r = "take (nat x - length f) ?R"
  have rcv: "rcvbuf ?ia = f @ ?R" using w1 by (simp add: seg_bytes_def)
  have xpos: "0 < x" using lx fne by (cases f) auto
  have tk: "take (nat x) (rcvbuf ?ia) = f @ ?r" using rcv lx by simp
  have pk: "sock_recv x True (ins s) = (Inr (f @ ?r), ?ia)"
    using xpos tk by (simp add: sock_recv_def Let_def)
  have ne': "f @ ?r \<noteq> []" using fne by simp
  from fa obtain q where dec: "dissect basecls (f @ ?r) = Inr q"
    by (auto simp: frames_as_def)
  from frame_decode[OF fa dec] have P: "padding_len (padding_layer cf) q = length ?r"
    and sp: "fst (strip_padding (padding_layer cf) q (int (length (f @ ?r)))) = p" by auto
  have le: "padding_len (padding_layer cf) q \<le> length (f @ ?r)" using P by simp
  from stream_recv_state[OF pk ne' dec le]
  have "StreamSocket_recv cf basecls x s =
      (Inr p, s\<lparr>ins := ?ia\<lparr>rcvbuf := drop (length f) (rcvbuf ?ia)\<rparr>,
                log := log s @ [Decode (name basecls) (f @ ?r)]\<rparr>)"
    unfolding sp P by simp
  moreover have "drop (length f) (rcvbuf ?ia) = seg_bytes fs1" using rcv by simp
  ultimately show ?thesis using w2 w3 by auto
qed

lemma arrive_frames:
  assumes rb: "rcvbuf i = seg_bytes fs" and fl: "inflight i = map seg_bytes segs"
  shows "rcvbuf (arrive k i) = seg_bytes (fs @ concat (take k segs))
       \<and> inflight (arrive k i) = map seg_bytes (drop k segs)
       \<and> (fs @ concat (take k segs)) @ concat (drop k segs) = fs @ concat segs"
proof -
  have "concat (take k segs) @ concat (drop k segs) = concat segs"
    by (metis append_take_drop_id concat_append)
  then show ?thesis using rb fl
    by (simp add: arrive_def seg_bytes_append seg_bytes_concat take_map drop_map)
qed

lemma run_frames:
  assumes "\<forall>(f, p) \<in> set (fs @ concat segs). frames_as cf basecls f p \<and> int (length f) \<le> x"
    and "length ks = length (fs @ concat segs)"
    and "rcvbuf (ins s) = seg_bytes fs" and "inflight (ins s) = map seg_bytes segs"
  shows "fst (recv_n cf basecls x ks s) = map (\<lambda>(f, p). Inr p) (fs @ concat segs)
       \<and> pending (ins (snd (recv_n cf basecls x ks s))) = []"
  using assms
proof (induction ks arbitrary: s fs segs)
  case Nil
  then have "fs = []" and "concat segs = []" by auto
  have r0: "rcvbuf (ins s) = []" using Nil.prems(3) \<open>fs = []\<close> by (simp add: seg_bytes_def)
  have "concat (inflight (ins s)) = seg_bytes (concat segs)"
    using Nil.prems(4) by (simp only: seg_bytes_concat)
  also have "\<dots> = []" unfolding \<open>concat segs = []\<close> by (simp add: seg_bytes_def)
  finally have i0: "concat (inflight (ins s)) = []" .
  have "pending (ins s) = []" unfolding pending_def r0 i0 by simp
  moreover have "fs @ concat segs = []" using \<open>fs = []\<close> \<open>concat segs = []\<close> by simp
  ultimately show ?case by simp
next
  case (Cons k ks)
  let ?s1 = "s\<lparr>ins := arrive k (ins s)\<rparr>"
  let ?fs1 = "fs @ concat (take k segs)"
  let ?segs1 = "drop k segs"
  from arrive_frames[OF Cons.prems(3) Cons.prems(4), of k]
  have a1: "rcvbuf (ins ?s1) = seg_bytes ?fs1" and a2: "inflight (ins ?s1) = map seg_bytes ?segs1"
    and a3: "?fs1 @ concat ?segs1 = fs @ concat segs" by simp_all
  from Cons.prems(2) obtain f p rest where fr: "fs @ concat segs = (f, p) # rest"
    by (cases "fs @ concat segs") auto
  have ok1: "\<forall>(f, p) \<in> set (?fs1 @ concat ?segs1). frames_as cf basecls f p \<and> int (length f) \<le> x"
    using Cons.prems(1) unfolding a3 .
  have fr1: "?fs1 @ concat ?segs1 = (f, p) # rest" using a3 fr by simp
  from recv_one[OF ok1 fr1 a1 a2] obtain s' fs' segs' where
    r: "StreamSocket_recv cf basecls x ?s1 = (Inr p, s')"
    and b1: "rcvbuf (ins s') = seg_bytes fs'" and b2: "inflight (ins s') = map seg_bytes segs'"
    and b3: "fs' @ concat segs' = rest" by blast
  have ok2: "\<forall>(f, p) \<in> set (fs' @ concat segs'). frames_as cf basecls f p \<and> int (length f) \<le> x"
    using Cons.prems(1) fr b3 by auto
  have l2: "length ks = length (fs' @ concat segs')"
    using Cons.prems(2) fr b3 by simp
  from Cons.IH[OF ok2 l2 b1 b2]
  have ih: "fst (recv_n cf basecls x ks s') = map (\<lambda>(f, p). Inr p) rest"
    and ih2: "pending (ins (snd (recv_n cf basecls x ks s'))) = []"
    using b3 by simp_all
  obtain rs s2 where rn: "recv_n cf basecls x ks s' = (rs, s2)"
    by (cases "recv_n cf basecls x ks s'")
  with r have "recv_n cf basecls x (k # ks) s = (Inr p # rs, s2)" by simp
  with ih ih2 rn fr show ?case by simp
qed

text \<open>
  Claim C3, amended. Let every read (segment) hold whole frames only, each frame framed
  by the class and not longer than the peek size \<open>x\<close>. Then, however the arrivals of
  the segments are spread over the calls (the schedule \<open>ks\<close>), as many calls as there
  are frames return exactly the frames, in order, and no byte is left in the channel.
\<close>

theorem frames_in_order:
  assumes fr: "\<forall>(f, p) \<in> set (concat segs). frames_as cf basecls f p \<and> int (length f) \<le> x"
    and len: "length ks = length (concat segs)"
    and s0: "ins s = \<lparr>rcvbuf = [], inflight = map seg_bytes segs\<rparr>"
  shows "fst (recv_n cf basecls x ks s) = map (\<lambda>(f, p). Inr p) (concat segs)
       \<and> pending (ins (snd (recv_n cf basecls x ks s))) = []"
proof -
  have rb: "rcvbuf (ins s) = seg_bytes []" and fl: "inflight (ins s) = map seg_bytes segs"
    using s0 by (simp_all add: seg_bytes_def)
  from run_frames[of "[]" segs cf basecls x ks s] fr len rb fl show ?thesis by simp
qed

theorem frames_in_order_witness:
  "fst (recv_n conf0 pair_cls 1500 [0, 1, 0] (mk_stream [] [''abcd'', ''ef''])) =
     [Inr (mk_packet [mk_layer ''Pair'' ''ab'']), Inr (mk_packet [mk_layer ''Pair'' ''cd'']),
      Inr (mk_packet [mk_layer ''Pair'' ''ef''])]
   \<and> pending (ins (snd (recv_n conf0 pair_cls 1500 [0, 1, 0]
         (mk_stream [] [''abcd'', ''ef''])))) = []"
proof -
  let ?pk = "\<lambda>f. mk_packet [mk_layer ''Pair'' f]"
  let ?segs = "[[(''ab'', ?pk ''ab''), (''cd'', ?pk ''cd'')], [(''ef'', ?pk ''ef'')]]"
  have fa: "frames_as conf0 pair_cls [a, b] (?pk [a, b])" for a b
    by (simp add: frames_as_def pair_cls_def conf0_def mk_packet_def mk_layer_def pad_layer_def)
  have h1: "\<forall>(f, p) \<in> set (concat ?segs). frames_as conf0 pair_cls f p \<and> int (length f) \<le> 1500"
    using fa by simp
  have h2: "length [0::nat, 1, 0] = length (concat ?segs)" by simp
  have h3: "ins (mk_stream [] [''abcd'', ''ef'']) =
      \<lparr>rcvbuf = [], inflight = map seg_bytes ?segs\<rparr>"
    by (simp add: mk_stream_def mk_sock_def seg_bytes_def)
  from frames_in_order[OF h1 h2 h3] show ?thesis by simp
qed

end
